theory Spec2Isabelle
  imports Main "HOL-Library.Sublist"
begin

section \<open>JavaScript values used by \<^verbatim>\<open>src/app/page.tsx\<close>\<close>

text \<open>
  Strings are \<^typ>\<open>string\<close>. The strings the program handles (addresses, reverse-domain
  names, wallet names, decimal numbers) are ASCII; \<open>toLowerCase\<close> maps the letters
  \<open>A\<close>..\<open>Z\<close> to \<open>a\<close>..\<open>z\<close> and leaves every other character as it is.
\<close>

definition lowerChar :: "char \<Rightarrow> char" where
  "lowerChar c =
     (case map_of (zip ''ABCDEFGHIJKLMNOPQRSTUVWXYZ'' ''abcdefghijklmnopqrstuvwxyz'') c of
        Some d \<Rightarrow> d
      | None \<Rightarrow> c)"

definition toLowerCase :: "string \<Rightarrow> string" where
  "toLowerCase s = map lowerChar s"

text \<open>\<^verbatim>\<open>s.includes(f)\<close>: \<open>f\<close> occurs in \<open>s\<close> as a contiguous run of characters.\<close>

definition String_includes :: "string \<Rightarrow> string \<Rightarrow> bool" where
  "String_includes s f = sublist f s"

text \<open>
  An optional string (\<^verbatim>\<open>string | null | undefined\<close>) is a \<^typ>\<open>string option\<close>.
  It is falsy when it is absent or empty, so \<^verbatim>\<open>a || d\<close> yields \<open>d\<close> in both cases.
\<close>

definition orElse :: "string option \<Rightarrow> string \<Rightarrow> string" where
  "orElse a d = (case a of None \<Rightarrow> d | Some s \<Rightarrow> if s = [] then d else s)"

text \<open>
  \<^verbatim>\<open>String(n)\<close> for a non-negative integer below \<open>10^21\<close> is its decimal numeral.
  \<^verbatim>\<open>parseInt(s)\<close> reads the leading decimal digits of \<open>s\<close>; \<open>None\<close> stands for
  \<open>NaN\<close>. The program applies \<open>parseInt\<close> only to a balance string it wrote itself
  (\<^verbatim>\<open>'1'\<close> or the result of \<open>String\<close>), so leading blanks, a sign and a radix
  prefix are not modelled.
\<close>

definition digitChar :: "nat \<Rightarrow> char" where
  "digitChar d = ''0123456789'' ! d"

fun String_of_number :: "nat \<Rightarrow> string" where
  "String_of_number n =
     (if n < 10 then [digitChar n]
      else String_of_number (n div 10) @ [digitChar (n mod 10)])"

definition digitValue :: "char \<Rightarrow> nat option" where
  "digitValue c = map_of (zip ''0123456789'' [0, 1, 2, 3, 4, 5, 6, 7, 8, 9]) c"

fun readDigits :: "nat \<Rightarrow> string \<Rightarrow> nat" where
  "readDigits acc [] = acc"
| "readDigits acc (c # cs) =
     (case digitValue c of
        None \<Rightarrow> acc
      | Some d \<Rightarrow> readDigits (acc * 10 + d) cs)"

definition parseInt :: "string \<Rightarrow> nat option" where
  "parseInt s =
     (case s of
        [] \<Rightarrow> None
      | c # cs \<Rightarrow> (case digitValue c of None \<Rightarrow> None | Some d \<Rightarrow> Some (readDigits d cs)))"

definition String_of_NaN_or_number :: "nat option \<Rightarrow> string" where
  "String_of_NaN_or_number v = (case v of None \<Rightarrow> ''NaN'' | Some n \<Rightarrow> String_of_number n)"

text \<open>
  An error object may carry \<open>shortMessage\<close>, \<open>message\<close> and \<open>code\<close> (the casts
  \<^verbatim>\<open>error as { shortMessage?: string; message?: string }\<close> and
  \<^verbatim>\<open>switchError as { code?: number }\<close>); a value without these properties, such
  as a thrown string, reads as an object in which all three are absent.
\<close>

record js_error =
  shortMessage :: "string option"
  message :: "string option"
  code :: "int option"

text \<open>
  A thrown value, or the value a promise rejects with, is any value: it is
  \<open>undefined\<close> or \<open>null\<close>, on which reading a property throws a \<open>TypeError\<close>, or it
  reads as an error object.
\<close>

datatype js_thrown = ThrownNullish | ThrownObject js_error

text \<open>\<^verbatim>\<open>new Error(m)\<close>\<close>

definition new_Error :: "string \<Rightarrow> js_error" where
  "new_Error m = \<lparr>shortMessage = None, message = Some m, code = None\<rparr>"

text \<open>
  An EIP-1193 request. \<open>params\<close> is \<open>None\<close> when the request object has no
  \<open>params\<close> property.
\<close>

record nativeCurrency_params =
  name :: string
  symbol :: string
  decimals :: nat

record chain_params =
  chainId :: string
  chainName :: string
  nativeCurrency :: nativeCurrency_params
  rpcUrls :: "string list"
  blockExplorerUrls :: "string list"

definition LUKSO_CHAIN_PARAMS :: chain_params where
  "LUKSO_CHAIN_PARAMS =
     \<lparr>chainId = ''0x2a'',
      chainName = ''LUKSO Mainnet'',
      nativeCurrency = \<lparr>name = ''LUKSO'', symbol = ''LYX'', decimals = 18\<rparr>,
      rpcUrls = [''https://rpc.mainnet.lukso.network''],
      blockExplorerUrls = [''https://explorer.execution.mainnet.lukso.network'']\<rparr>"

datatype rpc_param =
    TransactionParams (tx_from: string) (tx_to: string) (tx_data: string)
  | SwitchChainParams string
  | AddChainParams chain_params

datatype rpc_request = Request (rpc_method: string) (params: "rpc_param list option")

text \<open>
  An \<open>EthereumProvider\<close> is an object with a \<open>request\<close> method whose promise
  resolves with a value or rejects with an error. Its behaviour during one handler
  invocation is a function from the requests it has received since the invocation began
  (the last one being the request to answer) to the outcome of that request; \<open>Inl\<close> is
  a rejection. The type parameter is the type the caller casts the result to.
\<close>

type_synonym 'r EthereumProvider = "rpc_request list \<Rightarrow> js_thrown + 'r"


section \<open>Provider Registry: EIP-6963 discovery and classification\<close>

record EIP6963ProviderInfo =
  uuid :: string
  name :: string
  icon :: string
  rdns :: string

record 'p EIP6963ProviderDetail =
  info :: EIP6963ProviderInfo
  provider :: 'p

text \<open>
  The \<open>detail\<close> of an announcement event. \<open>None\<close> is an event for which
  \<^verbatim>\<open>e.detail?.info?.uuid\<close> is \<open>undefined\<close> (no detail, no info or no uuid); a
  present uuid may still be the empty string, which is falsy as well.
\<close>

type_synonym 'p announcement = "'p EIP6963ProviderDetail option"

definition UP_FILTERS :: "string list" where
  "UP_FILTERS = [''universalprofile'', ''lukso'', ''universal profile'', ''universal-profile'']"

text \<open>The state update of \<open>handleAnnouncement\<close> in \<open>useEIP6963Providers\<close>.\<close>

definition handleAnnouncement ::
  "'p EIP6963ProviderDetail list \<Rightarrow> 'p announcement \<Rightarrow> 'p EIP6963ProviderDetail list" where
  "handleAnnouncement prev e =
     (case e of
        None \<Rightarrow> prev
      | Some d \<Rightarrow>
          if uuid (info d) = [] then prev
          else if list_ex (\<lambda>p. uuid (info p) = uuid (info d)) prev then prev
          else prev @ [d])"

text \<open>The providers state after a sequence of announcements, starting from \<^verbatim>\<open>[]\<close>.\<close>

definition useEIP6963Providers :: "'p announcement list \<Rightarrow> 'p EIP6963ProviderDetail list" where
  "useEIP6963Providers events = foldl handleAnnouncement [] events"

definition isUPWallet :: "string \<Rightarrow> bool" where
  "isUPWallet v = (let lower = toLowerCase v in list_ex (\<lambda>f. String_includes lower f) UP_FILTERS)"

definition legacyWallets :: "'p EIP6963ProviderDetail list \<Rightarrow> 'p EIP6963ProviderDetail list" where
  "legacyWallets allProviders =
     filter (\<lambda>p. \<not> isUPWallet (rdns (info p)) \<and> \<not> isUPWallet (name (info p))) allProviders"

text \<open>The uuids carried by the announcements of a sequence.\<close>

definition uuidsSeen :: "'p announcement list \<Rightarrow> string set" where
  "uuidsSeen events = set (map (\<lambda>d. uuid (info d)) (List.map_filter (\<lambda>e. e) events))"


section \<open>Indexer Client\<close>

text \<open>
  The \<open>asset\<close> object of an LSP7 holding row and the \<open>baseAsset\<close> object of an LSP8
  holding row. \<open>icons\<close> lists the \<open>src\<close> of each icon.
\<close>

record indexed_asset =
  asset_id :: string
  lsp4TokenName :: "string option"
  lsp4TokenSymbol :: "string option"
  icons :: "string list"

record lsp7_indexed_asset = indexed_asset +
  decimals :: "int option"

record lsp7_hold =
  balance :: string
  asset :: "lsp7_indexed_asset option"

record lsp8_hold =
  balance :: string
  token_id :: string
  baseAsset_id :: string
  baseAsset :: "indexed_asset option"

text \<open>The \<open>data\<close> of a query answer: \<^verbatim>\<open>{ Hold: Array<...> }\<close>.\<close>

record 'h hold_data =
  Hold :: "'h list"

text \<open>
  The JSON body of an indexer answer. \<open>errors\<close> is \<open>None\<close> when the property is
  absent; when present it lists the \<open>message\<close> property of each reported error.
\<close>

record 'd graphql_json =
  data :: 'd
  errors :: "string option list option"

text \<open>
  What \<open>fetch\<close> gives for one POST: the promise rejects (network failure), or it
  resolves with a response carrying \<open>ok\<close>, \<open>status\<close> and a body that
  \<open>res.json()\<close> parses or rejects.
\<close>

datatype 'd fetch_result =
    FetchRejected js_thrown
  | Response (ok: bool) (status: nat) (json: "js_thrown + 'd graphql_json")

text \<open>
  The indexer: its answer to the LSP7 and to the LSP8 holdings query for a given
  \<open>profile_id\<close>.
\<close>

record indexer =
  lsp7Holds :: "string \<Rightarrow> lsp7_hold hold_data fetch_result"
  lsp8Holds :: "string \<Rightarrow> lsp8_hold hold_data fetch_result"

datatype indexer_query = HoldQuery (standard: string) (profile_id: string) (limit: nat)

datatype asset_type = LSP7 | LSP8

datatype transfer_state = Pending | Transferring | Success | Error

record TransferStatus =
  address :: string
  status :: transfer_state
  txHash :: "string option"
  error :: "string option"

record TokenAsset =
  address :: string
  name :: string
  symbol :: string
  type :: asset_type
  balance :: string
  decimals :: int
  selected :: bool
  iconUrl :: "string option"
  tokenIds :: "string list option"
  transferAmount :: string

text \<open>
  The library functions the program calls: \<open>parseUnits\<close>, \<open>formatUnits\<close> and
  \<open>encodeFunctionData\<close> of viem and the built-in \<open>BigInt\<close>. They are parameters of
  the model; \<open>Inl\<close> is a thrown error.
\<close>

datatype abi_item =
  AbiFunction (abi_name: string) (stateMutability: string)
    (inputs: "(string \<times> string) list") (outputs: "(string \<times> string) list")

datatype js_arg = Str string | BigIntValue int | BoolValue bool

record lib =
  parseUnits :: "string \<Rightarrow> int \<Rightarrow> js_thrown + int"
  formatUnits :: "int \<Rightarrow> int \<Rightarrow> string"
  BigInt :: "string \<Rightarrow> js_thrown + int"
  encodeFunctionData :: "abi_item list \<Rightarrow> string \<Rightarrow> js_arg list \<Rightarrow> js_thrown + string"

definition LSP7_TRANSFER_ABI :: "abi_item list" where
  "LSP7_TRANSFER_ABI =
     [AbiFunction ''transfer'' ''nonpayable''
        [(''from'', ''address''), (''to'', ''address''), (''amount'', ''uint256''),
         (''force'', ''bool''), (''data'', ''bytes'')] []]"

definition LSP8_TRANSFER_ABI :: "abi_item list" where
  "LSP8_TRANSFER_ABI =
     [AbiFunction ''transfer'' ''nonpayable''
        [(''from'', ''address''), (''to'', ''address''), (''tokenId'', ''bytes32''),
         (''force'', ''bool''), (''data'', ''bytes'')] []]"

definition queryIndexer :: "'d fetch_result \<Rightarrow> js_thrown + 'd" where
  "queryIndexer res =
     (case res of
        FetchRejected e \<Rightarrow> Inl e
      | Response res_ok res_status body \<Rightarrow>
          if \<not> res_ok then
            Inl (ThrownObject
                   (new_Error (''Indexer request failed: '' @ String_of_number res_status)))
          else (case body of
                  Inl e \<Rightarrow> Inl e
                | Inr j \<Rightarrow>
                    (case errors j of
                       Some es \<Rightarrow>
                         Inl (ThrownObject
                                (new_Error
                                   (orElse (case es of [] \<Rightarrow> None | m # _ \<Rightarrow> m)
                                      ''GraphQL error'')))
                     | None \<Rightarrow> Inr (data j))))"

text \<open>
  \<open>Promise.all\<close> of the two queries: both are issued, and the result is a rejection
  as soon as one of them rejects. When both reject, the one settling first is reported;
  the model reports the LSP7 one (the handler discards the error value).
\<close>

definition Promise_all :: "js_thrown + 'a \<Rightarrow> js_thrown + 'b \<Rightarrow> js_thrown + ('a \<times> 'b)" where
  "Promise_all a b =
     (case a of
        Inl e \<Rightarrow> Inl e
      | Inr x \<Rightarrow> (case b of Inl e \<Rightarrow> Inl e | Inr y \<Rightarrow> Inr (x, y)))"

text \<open>The loop over \<open>lsp7Data.Hold\<close>; \<open>BigInt(hold.balance)\<close> may throw.\<close>

fun processLSP7 :: "lib \<Rightarrow> lsp7_hold list \<Rightarrow> js_thrown + TokenAsset list" where
  "processLSP7 L [] = Inr []"
| "processLSP7 L (hold # rest) =
     (case asset hold of
        None \<Rightarrow> processLSP7 L rest
      | Some a \<Rightarrow>
          (let dec = (case lsp7_indexed_asset.decimals a of None \<Rightarrow> 18 | Some d \<Rightarrow> d) in
           case BigInt L (lsp7_hold.balance hold) of
             Inl e \<Rightarrow> Inl e
           | Inr b \<Rightarrow>
               (case processLSP7 L rest of
                  Inl e \<Rightarrow> Inl e
                | Inr tokens \<Rightarrow>
                    Inr (\<lparr>address = asset_id a,
                          name = orElse (lsp4TokenName a) ''Unknown Token'',
                          symbol = orElse (lsp4TokenSymbol a) ''???'',
                          type = LSP7,
                          balance = lsp7_hold.balance hold,
                          decimals = dec,
                          selected = True,
                          iconUrl = (case icons a of [] \<Rightarrow> None | src # _ \<Rightarrow> Some src),
                          tokenIds = None,
                          transferAmount = formatUnits L b dec\<rparr> # tokens))))"

text \<open>\<open>s.indexOf(c)\<close> (\<open>-1\<close> when absent) and \<open>s.slice(start)\<close>.\<close>

fun indexOf :: "string \<Rightarrow> char \<Rightarrow> int" where
  "indexOf [] c = - 1"
| "indexOf (x # xs) c =
     (if x = c then 0 else (let i = indexOf xs c in if i < 0 then - 1 else i + 1))"

definition slice :: "string \<Rightarrow> int \<Rightarrow> string" where
  "slice s start =
     (if start < 0 then drop (nat (int (length s) + start)) s else drop (nat start) s)"

text \<open>
  The \<open>Map\<close> of collections keeps its entries in insertion order: an association list
  with one entry for each key. A key that the map has is looked up with \<open>map_of\<close>; the
  object found is changed in place, which keeps the entry where it is; \<open>set\<close> on a key
  that the map does not have appends an entry.

  The body of the loop over \<open>lsp8Data.Hold\<close>:
\<close>

definition collectHold :: "(string \<times> TokenAsset) list \<Rightarrow> lsp8_hold \<Rightarrow> (string \<times> TokenAsset) list" where
  "collectHold collections hold =
     (case baseAsset hold of
        None \<Rightarrow> collections
      | Some b \<Rightarrow>
          (let collectionAddr = asset_id b;
               tokenId = slice (token_id hold) (indexOf (token_id hold) CHR ''-'' + 1)
           in case map_of collections collectionAddr of
                Some existing \<Rightarrow>
                  map (\<lambda>(k, v).
                         if k = collectionAddr then
                           (k, existing\<lparr>balance :=
                                          String_of_NaN_or_number
                                            (map_option Suc (parseInt (balance existing))),
                                        tokenIds :=
                                          map_option (\<lambda>ids. ids @ [tokenId]) (tokenIds existing)\<rparr>)
                         else (k, v))
                    collections
              | None \<Rightarrow>
                  collections @
                    [(collectionAddr,
                      \<lparr>address = collectionAddr,
                       name = orElse (lsp4TokenName b) ''Unknown NFT'',
                       symbol = orElse (lsp4TokenSymbol b) ''???'',
                       type = LSP8,
                       balance = ''1'',
                       decimals = 0,
                       selected = True,
                       iconUrl = (case icons b of [] \<Rightarrow> None | src # _ \<Rightarrow> Some src),
                       tokenIds = Some [tokenId],
                       transferAmount = ''1''\<rparr>)]))"

definition processLSP8 :: "lsp8_hold list \<Rightarrow> TokenAsset list" where
  "processLSP8 holds = map snd (foldl collectHold [] holds)"

text \<open>
  \<open>fetchTokensForAddress\<close> returns the tokens, or the error it throws, together with
  the queries it sent to the indexer.
\<close>

definition fetchTokensForAddress ::
  "lib \<Rightarrow> indexer \<Rightarrow> string \<Rightarrow> (js_thrown + TokenAsset list) \<times> indexer_query list" where
  "fetchTokensForAddress L I sourceAddr =
     (let addr = toLowerCase sourceAddr;
          queries = [HoldQuery ''LSP7DigitalAsset'' addr 100,
                     HoldQuery ''LSP8IdentifiableDigitalAsset'' addr 100]
      in case Promise_all (queryIndexer (lsp7Holds I addr)) (queryIndexer (lsp8Holds I addr)) of
           Inl e \<Rightarrow> (Inl e, queries)
         | Inr (lsp7Data, lsp8Data) \<Rightarrow>
             (case processLSP7 L (Hold lsp7Data) of
                Inl e \<Rightarrow> (Inl e, queries)
              | Inr tokens \<Rightarrow> (Inr (tokens @ processLSP8 (Hold lsp8Data)), queries)))"


section \<open>The component state and its handlers\<close>

text \<open>
  The wagmi connector of the source wallet; \<open>getProvider\<close> resolves with a provider
  (or nothing) or rejects.
\<close>

record connector_info =
  connector_id :: string
  connector_name :: "string option"
  getProvider :: "js_thrown + string EthereumProvider option"

text \<open>
  The state of \<open>Home\<close> that the handlers read and write: the values of \<open>useAccount\<close>
  (\<open>liveAddress\<close>, \<open>connector\<close>) and the \<open>useState\<close> cells.
\<close>

record Home =
  step :: nat
  liveAddress :: "string option"
  connector :: "connector_info option"
  savedSourceAddress :: string
  sourceProvider :: "string EthereumProvider option"
  upAddress :: string
  upConnected :: bool
  upConnecting :: bool
  assets :: "TokenAsset list"
  scanning :: bool
  scanError :: string
  transferStatuses :: "TransferStatus list"
  isTransferring :: bool
  switchingNetwork :: bool
  upError :: string

text \<open>The state of the first render: the initial value of every \<open>useState\<close> cell.\<close>

definition initialHome :: Home where
  "initialHome =
     \<lparr>step = 1, liveAddress = None, connector = None, savedSourceAddress = [],
      sourceProvider = None, upAddress = [], upConnected = False, upConnecting = False,
      assets = [], scanning = False, scanError = [], transferStatuses = [],
      isTransferring = False, switchingNetwork = False, upError = []\<rparr>"

definition sourceAddress :: "Home \<Rightarrow> string option" where
  "sourceAddress st =
     (if step st = 1 then liveAddress st
      else if savedSourceAddress st \<noteq> [] then Some (savedSourceAddress st)
      else liveAddress st)"

text \<open>
  \<open>handleSwitchToLukso\<close>, given \<open>window.ethereum\<close>: the new state and the requests
  issued. Reading \<open>error.code\<close> of a rejection with \<open>undefined\<close> or \<open>null\<close> throws
  inside the inner \<open>catch\<close>; that error, like every error that reaches the outer
  \<open>catch\<close>, is written to the console only.
\<close>

definition handleSwitchToLukso ::
  "'r EthereumProvider option \<Rightarrow> Home \<Rightarrow> Home \<times> rpc_request list" where
  "handleSwitchToLukso ethereum st =
     (let st1 = st\<lparr>switchingNetwork := True\<rparr> in
      case ethereum of
        None \<Rightarrow> (st1\<lparr>switchingNetwork := False\<rparr>, [])
      | Some eth \<Rightarrow>
          (let switch = Request ''wallet_switchEthereumChain''
                          (Some [SwitchChainParams (chainId LUKSO_CHAIN_PARAMS)])
           in case eth [switch] of
                Inr _ \<Rightarrow> (st1\<lparr>switchingNetwork := False\<rparr>, [switch])
              | Inl switchError \<Rightarrow>
                  (case switchError of
                     ThrownNullish \<Rightarrow> (st1\<lparr>switchingNetwork := False\<rparr>, [switch])
                   | ThrownObject err \<Rightarrow>
                       if code err = Some 4902 then
                         (let add = Request ''wallet_addEthereumChain''
                                      (Some [AddChainParams LUKSO_CHAIN_PARAMS])
                          in case eth [switch, add] of
                               Inr _ \<Rightarrow> (st1\<lparr>switchingNetwork := False\<rparr>, [switch, add])
                             | Inl _ \<Rightarrow> (st1\<lparr>switchingNetwork := False\<rparr>, [switch, add]))
                       else (st1\<lparr>switchingNetwork := False\<rparr>, [switch]))))"

text \<open>
  \<open>handleConnectUPExtension\<close>, given \<open>window.lukso\<close>. The result of
  \<open>eth_requestAccounts\<close> is cast to \<^verbatim>\<open>string[]\<close> and tested for being present
  and non-empty.
\<close>

definition handleConnectUPExtension ::
  "string list option EthereumProvider option \<Rightarrow> Home \<Rightarrow> Home \<times> rpc_request list" where
  "handleConnectUPExtension luksoProvider st =
     (let st1 = st\<lparr>upConnecting := True, upError := []\<rparr> in
      case luksoProvider of
        None \<Rightarrow>
          (st1\<lparr>upError := ''UP Browser Extension not detected. Install it from the LUKSO website or enter your Universal Profile address manually below.'',
               upConnecting := False\<rparr>, [])
      | Some lukso \<Rightarrow>
          (let req = Request ''eth_requestAccounts'' None in
           case lukso [req] of
             Inl _ \<Rightarrow>
               (st1\<lparr>upError := ''Failed to connect. Please try again.'',
                    upConnecting := False\<rparr>, [req])
           | Inr accounts \<Rightarrow>
               (case accounts of
                  Some (upAddr # _) \<Rightarrow>
                    if toLowerCase upAddr = toLowerCase (savedSourceAddress st) then
                      (st1\<lparr>upError := ''This is the same address as your source wallet. Please connect a different Universal Profile.'',
                           upConnecting := False\<rparr>, [req])
                    else
                      (st1\<lparr>upAddress := upAddr, upConnected := True, upError := [],
                           upConnecting := False\<rparr>, [req])
                | _ \<Rightarrow> (st1\<lparr>upConnecting := False\<rparr>, [req]))))"

definition isSameAddress :: "Home \<Rightarrow> bool" where
  "isSameAddress st =
     (case sourceAddress st of
        None \<Rightarrow> False
      | Some src \<Rightarrow>
          if upAddress st \<noteq> [] \<and> src \<noteq> [] then toLowerCase (upAddress st) = toLowerCase src
          else False)"

text \<open>\<open>handleFindAssets\<close>: the new state and the queries sent to the indexer.\<close>

definition handleFindAssets :: "lib \<Rightarrow> indexer \<Rightarrow> Home \<Rightarrow> Home \<times> indexer_query list" where
  "handleFindAssets L I st =
     (case sourceAddress st of
        None \<Rightarrow> (st, [])
      | Some src \<Rightarrow>
          if src = [] \<or> upAddress st = [] then (st, [])
          else if isSameAddress st then
            (st\<lparr>scanError := ''Source and destination addresses are the same. Please use different wallets.''\<rparr>, [])
          else
            (let st1 = st\<lparr>scanning := True, scanError := []\<rparr> in
             case fetchTokensForAddress L I src of
               (Inr tokens, queries) \<Rightarrow>
                 (st1\<lparr>assets := tokens, transferStatuses := [], step := 3, scanning := False\<rparr>,
                  queries)
             | (Inl _, queries) \<Rightarrow>
                 (st1\<lparr>scanError := ''Failed to scan assets. Please try again.'',
                      scanning := False\<rparr>, queries)))"


section \<open>Transfer Engine\<close>

text \<open>
  \<open>sendViaProvider\<close>, given the requests the provider has received so far in this run:
  the outcome of the request and the extended list.
\<close>

definition sendViaProvider ::
  "string EthereumProvider \<Rightarrow> rpc_request list \<Rightarrow> string \<Rightarrow> string \<Rightarrow> string
     \<Rightarrow> (js_thrown + string) \<times> rpc_request list" where
  "sendViaProvider P log from to calldata =
     (let req = Request ''eth_sendTransaction'' (Some [TransactionParams from to calldata])
      in (P (log @ [req]), log @ [req]))"

text \<open>The three updates of \<open>transferStatuses\<close> that the loop applies.\<close>

definition setTransferring :: "string \<Rightarrow> TransferStatus list \<Rightarrow> TransferStatus list" where
  "setTransferring a prev =
     map (\<lambda>s. if TransferStatus.address s = a then s\<lparr>status := Transferring\<rparr> else s) prev"

definition setError :: "string \<Rightarrow> string \<Rightarrow> TransferStatus list \<Rightarrow> TransferStatus list" where
  "setError a msg prev =
     map (\<lambda>s. if TransferStatus.address s = a then s\<lparr>status := Error, error := Some msg\<rparr> else s)
       prev"

definition setSuccess :: "string \<Rightarrow> string \<Rightarrow> TransferStatus list \<Rightarrow> TransferStatus list" where
  "setSuccess a h prev =
     map (\<lambda>s. if TransferStatus.address s = a then s\<lparr>status := Success, txHash := Some h\<rparr> else s)
       prev"

text \<open>
  The inner loop over \<open>asset.tokenIds\<close>: \<open>Inr\<close> the last transaction hash, or
  \<open>Inl\<close> the error that left the loop.
\<close>

fun sendTokenIds ::
  "lib \<Rightarrow> string EthereumProvider \<Rightarrow> string \<Rightarrow> string \<Rightarrow> string \<Rightarrow> string list \<Rightarrow> string
     \<Rightarrow> rpc_request list \<Rightarrow> (js_thrown + string) \<times> rpc_request list" where
  "sendTokenIds L P src up contract [] lastTxHash log = (Inr lastTxHash, log)"
| "sendTokenIds L P src up contract (tokenId # rest) lastTxHash log =
     (case encodeFunctionData L LSP8_TRANSFER_ABI ''transfer''
             [Str src, Str up, Str tokenId, BoolValue True, Str ''0x''] of
        Inl e \<Rightarrow> (Inl e, log)
      | Inr calldata \<Rightarrow>
          (case sendViaProvider P log src contract calldata of
             (Inl e, log') \<Rightarrow> (Inl e, log')
           | (Inr h, log') \<Rightarrow> sendTokenIds L P src up contract rest h log'))"

text \<open>
  What the \<open>try\<close> block does for one asset. \<open>Rejected\<close> is a validation failure
  (the status is set to error and the loop continues), \<open>Succeeded\<close> carries the hash
  written with the status success, \<open>NoBranch\<close> is the case in which neither branch of
  the \<open>if\<close> applies, and \<open>Threw\<close> is an exception that reaches the \<open>catch\<close>.
\<close>

datatype attempt = Rejected string | Succeeded string | NoBranch | Threw js_thrown

definition tryTransfer ::
  "lib \<Rightarrow> string EthereumProvider \<Rightarrow> string \<Rightarrow> string \<Rightarrow> TokenAsset \<Rightarrow> rpc_request list
     \<Rightarrow> attempt \<times> rpc_request list" where
  "tryTransfer L P src up a log =
     (if type a = LSP7 then
        (case parseUnits L (transferAmount a) (decimals a) of
           Inl _ \<Rightarrow> (Rejected ''Invalid amount'', log)
         | Inr rawAmount \<Rightarrow>
             if rawAmount \<le> 0 then (Rejected ''Amount must be greater than 0'', log)
             else
               (case BigInt L (balance a) of
                  Inl e \<Rightarrow> (Threw e, log)
                | Inr held \<Rightarrow>
                    if rawAmount > held then (Rejected ''Amount exceeds balance'', log)
                    else
                      (case encodeFunctionData L LSP7_TRANSFER_ABI ''transfer''
                              [Str src, Str up, BigIntValue rawAmount, BoolValue True, Str ''0x''] of
                         Inl e \<Rightarrow> (Threw e, log)
                       | Inr calldata \<Rightarrow>
                           (case sendViaProvider P log src (address a) calldata of
                              (Inl e, log') \<Rightarrow> (Threw e, log')
                            | (Inr h, log') \<Rightarrow> (Succeeded h, log')))))
      else if type a = LSP8 then
        (case tokenIds a of
           None \<Rightarrow> (NoBranch, log)
         | Some ids \<Rightarrow>
             if 0 < length ids then
               (case sendTokenIds L P src up (address a) ids [] log of
                  (Inl e, log') \<Rightarrow> (Threw e, log')
                | (Inr lastTxHash, log') \<Rightarrow> (Succeeded lastTxHash, log'))
             else (NoBranch, log))
      else (NoBranch, log))"

text \<open>
  A state update is applied when its setter is called, so an updater that throws does so
  out of the call of the setter.

  One iteration of the loop over \<open>selectedAssets\<close>: the status is set to transferring,
  the \<open>try\<close> block runs, and its outcome is written to the statuses. The update in the
  \<open>catch\<close> reads \<open>err.shortMessage\<close>, on one of the records of the asset: when the
  caught value is \<open>undefined\<close> or \<open>null\<close> this throws a \<open>TypeError\<close>, no status is
  written and the error leaves the loop. The result is the statuses and requests after
  the iteration and whether the loop goes on (\<open>False\<close>: an error left it).
\<close>

definition processAsset ::
  "lib \<Rightarrow> string EthereumProvider \<Rightarrow> string \<Rightarrow> string
     \<Rightarrow> TransferStatus list \<times> rpc_request list \<Rightarrow> TokenAsset
     \<Rightarrow> (TransferStatus list \<times> rpc_request list) \<times> bool" where
  "processAsset L P src up acc a =
     (let prev = setTransferring (address a) (fst acc) in
      case tryTransfer L P src up a (snd acc) of
        (Rejected msg, log') \<Rightarrow> ((setError (address a) msg prev, log'), True)
      | (Succeeded h, log') \<Rightarrow> ((setSuccess (address a) h prev, log'), True)
      | (NoBranch, log') \<Rightarrow> ((prev, log'), True)
      | (Threw thrown, log') \<Rightarrow>
          (case thrown of
             ThrownObject err \<Rightarrow>
               ((setError (address a)
                   (orElse (shortMessage err) (orElse (message err) ''Transfer failed'')) prev,
                 log'), True)
           | ThrownNullish \<Rightarrow>
               if list_ex (\<lambda>s. TransferStatus.address s = address a) prev
               then ((prev, log'), False)
               else ((prev, log'), True)))"

text \<open>The loop over \<open>selectedAssets\<close>; it ends early when an error leaves it.\<close>

fun transferLoop ::
  "lib \<Rightarrow> string EthereumProvider \<Rightarrow> string \<Rightarrow> string \<Rightarrow> TokenAsset list
     \<Rightarrow> TransferStatus list \<times> rpc_request list
     \<Rightarrow> (TransferStatus list \<times> rpc_request list) \<times> bool" where
  "transferLoop L P src up [] acc = (acc, True)"
| "transferLoop L P src up (a # rest) acc =
     (case processAsset L P src up acc a of
        (acc', True) \<Rightarrow> transferLoop L P src up rest acc'
      | (acc', False) \<Rightarrow> (acc', False))"

definition pendingStatus :: "TokenAsset \<Rightarrow> TransferStatus" where
  "pendingStatus a = \<lparr>TransferStatus.address = address a, status = Pending, txHash = None, error = None\<rparr>"

text \<open>
  \<open>handleTransferAll\<close>: the new state and the requests sent to the provider during
  the run. When an error leaves the loop it leaves the handler as well, and
  \<open>setIsTransferring(false)\<close> is not reached.
\<close>

definition handleTransferAll :: "lib \<Rightarrow> Home \<Rightarrow> Home \<times> rpc_request list" where
  "handleTransferAll L st =
     (let resolved =
            (case sourceProvider st of
               Some p \<Rightarrow> (Some p, st)
             | None \<Rightarrow>
                 (case connector st of
                    None \<Rightarrow> (None, st)
                  | Some c \<Rightarrow>
                      (case getProvider c of
                         Inl _ \<Rightarrow> (None, st)
                       | Inr p \<Rightarrow> (p, st\<lparr>sourceProvider := p\<rparr>))));
          st0 = snd resolved
      in case fst resolved of
           None \<Rightarrow> (st0, [])
         | Some P \<Rightarrow>
             (case sourceAddress st of
                None \<Rightarrow> (st0, [])
              | Some src \<Rightarrow>
                  if src = [] \<or> upAddress st = [] then (st0, [])
                  else
                    (let selectedAssets = filter selected (assets st) in
                     if selectedAssets = [] then (st0, [])
                     else
                       (let st1 = st0\<lparr>isTransferring := True,
                                       transferStatuses := map pendingStatus selectedAssets\<rparr>;
                            final = transferLoop L P src (upAddress st) selectedAssets
                                      (transferStatuses st1, [])
                        in if snd final
                           then (st1\<lparr>transferStatuses := fst (fst final),
                                     isTransferring := False\<rparr>,
                                 snd (fst final))
                           else (st1\<lparr>transferStatuses := fst (fst final)\<rparr>,
                                 snd (fst final))))))"


section \<open>The grouping of LSP8 rows, as the specification words it\<close>

text \<open>
  The token id of a row is the text after the first separator of its compound id; the
  rows of a collection are the rows whose \<open>baseAsset\<close> has the address of the collection,
  in the order of the answer.
\<close>

definition tokenIdOf :: "lsp8_hold \<Rightarrow> string" where
  "tokenIdOf h = slice (token_id h) (indexOf (token_id h) CHR ''-'' + 1)"

definition rowsOfCollection :: "string \<Rightarrow> lsp8_hold list \<Rightarrow> lsp8_hold list" where
  "rowsOfCollection k holds = filter (\<lambda>h. map_option asset_id (baseAsset h) = Some k) holds"

text \<open>
  The collections \<open>m\<close> group the rows \<open>holds\<close>: one entry for each collection that
  has a row, holding the token ids of its rows in order and their number as balance.
\<close>

definition groups :: "(string \<times> TokenAsset) list \<Rightarrow> lsp8_hold list \<Rightarrow> bool" where
  "groups m holds =
     (distinct (map fst m)
      \<and> (\<forall>k. (map_of m k = None) = (rowsOfCollection k holds = []))
      \<and> (\<forall>k v. map_of m k = Some v \<longrightarrow>
             address v = k \<and> type v = LSP8
             \<and> tokenIds v = Some (map tokenIdOf (rowsOfCollection k holds))
             \<and> balance v = String_of_number (length (rowsOfCollection k holds))))"


section \<open>Runs of the Transfer Engine\<close>

text \<open>
  The message that the \<open>catch\<close> of the loop writes for a caught error object: its
  short message, else its message, else a generic text; an empty string counts as absent.
\<close>

definition errorText :: "js_error \<Rightarrow> string" where
  "errorText err =
     (case shortMessage err of
        Some (c # cs) \<Rightarrow> c # cs
      | _ \<Rightarrow> (case message err of Some (c # cs) \<Rightarrow> c # cs | _ \<Rightarrow> ''Transfer failed''))"

text \<open>
  What one iteration of the loop does to a status record of the asset it processes: the
  update to transferring followed by the update for the outcome, which is none when the
  caught value is \<open>undefined\<close> or \<open>null\<close>.
\<close>

definition applyAttempt :: "attempt \<Rightarrow> TransferStatus \<Rightarrow> TransferStatus" where
  "applyAttempt r s =
     (case r of
        Rejected msg \<Rightarrow> s\<lparr>status := Error, error := Some msg\<rparr>
      | Succeeded h \<Rightarrow> s\<lparr>status := Success, txHash := Some h\<rparr>
      | NoBranch \<Rightarrow> s\<lparr>status := Transferring\<rparr>
      | Threw thrown \<Rightarrow>
          (case thrown of
             ThrownObject err \<Rightarrow> s\<lparr>status := Error, error := Some (errorText err)\<rparr>
           | ThrownNullish \<Rightarrow> s\<lparr>status := Transferring\<rparr>))"

text \<open>The status record that an attempt leaves for an asset whose record was pending.\<close>

definition finalStatus :: "TokenAsset \<Rightarrow> attempt \<Rightarrow> TransferStatus" where
  "finalStatus a r = applyAttempt r (pendingStatus a)"

text \<open>
  The attempts of a run, in the order of the selected assets: for each asset that the loop
  reaches, the outcome of its \<open>try\<close> block, started with the requests sent before it,
  and the requests it added. No asset is reached after an attempt that caught
  \<open>undefined\<close> or \<open>null\<close>.
\<close>

fun runLoop ::
  "lib \<Rightarrow> string EthereumProvider \<Rightarrow> string \<Rightarrow> string \<Rightarrow> TokenAsset list \<Rightarrow> rpc_request list
     \<Rightarrow> (attempt \<times> rpc_request list) list" where
  "runLoop L P src up [] log = []"
| "runLoop L P src up (a # rest) log =
     (let r = tryTransfer L P src up a log
      in (fst r, drop (length log) (snd r)) #
         (if fst r = Threw ThrownNullish then [] else runLoop L P src up rest (snd r)))"

text \<open>
  The provider that \<open>handleTransferAll\<close> uses: the pinned one, or else the one the
  connector gives.
\<close>

definition resolvedProvider :: "Home \<Rightarrow> string EthereumProvider option" where
  "resolvedProvider st =
     (case sourceProvider st of
        Some p \<Rightarrow> Some p
      | None \<Rightarrow>
          (case connector st of
             None \<Rightarrow> None
           | Some c \<Rightarrow> (case getProvider c of Inl _ \<Rightarrow> None | Inr p \<Rightarrow> p)))"

text \<open>The call of \<open>encodeFunctionData\<close> for one token id of an LSP8 asset.\<close>

definition lsp8Calldata :: "lib \<Rightarrow> string \<Rightarrow> string \<Rightarrow> string \<Rightarrow> js_thrown + string" where
  "lsp8Calldata L src up tokenId =
     encodeFunctionData L LSP8_TRANSFER_ABI ''transfer''
       [Str src, Str up, Str tokenId, BoolValue True, Str ''0x'']"

text \<open>
  The \<open>eth_sendTransaction\<close> request for \<^verbatim>\<open>{from, to, data}\<close>, and the test
  whether a request is a transaction to a given address.
\<close>

definition transaction :: "string \<Rightarrow> string \<Rightarrow> string \<Rightarrow> rpc_request" where
  "transaction from to calldata =
     Request ''eth_sendTransaction'' (Some [TransactionParams from to calldata])"

definition sentTo :: "string \<Rightarrow> rpc_request \<Rightarrow> bool" where
  "sentTo a q =
     (case params q of
        Some [TransactionParams from to calldata] \<Rightarrow> to = a
      | _ \<Rightarrow> False)"


section \<open>Test doubles\<close>

text \<open>Concrete wallets, providers and library functions for the examples below.\<close>

definition announced :: "string \<Rightarrow> string \<Rightarrow> unit EIP6963ProviderDetail" where
  "announced u n = \<lparr>info = \<lparr>uuid = u, name = n, icon = [], rdns = []\<rparr>, provider = ()\<rparr>"

text \<open>
  A library in which amounts are whole numbers: \<open>parseUnits\<close> and \<open>BigInt\<close> read a
  decimal numeral and throw on anything else. \<open>encodeFunctionData\<close> checks each
  argument against the type that the ABI gives it, as viem does, and throws on the first
  that does not fit: an address is \<open>0x\<close> and 40 hexadecimal digits (here in lower
  case), a \<open>bytes32\<close> is \<open>0x\<close> and 64 hexadecimal digits, a \<open>uint256\<close> is an
  integer from 0 to \<open>2\<^sup>2\<^sup>5\<^sup>6 - 1\<close>. The calldata is the name of the function followed
  by its arguments, and the messages of the errors are shortened.
\<close>

definition isHexString :: "nat \<Rightarrow> string \<Rightarrow> bool" where
  "isHexString n s =
     (take 2 s = ''0x'' \<and> length s = 2 + n \<and>
      list_all (\<lambda>c. c \<in> set ''0123456789abcdef'') (drop 2 s))"

definition abiError :: "string \<Rightarrow> js_thrown" where
  "abiError m = ThrownObject \<lparr>shortMessage = Some m, message = Some (m @ '' Version: viem''), code = None\<rparr>"

definition checkArg :: "string \<Rightarrow> js_arg \<Rightarrow> js_thrown option" where
  "checkArg ty a =
     (if ty = ''address'' then
        (case a of
           Str s \<Rightarrow> if isHexString 40 s then None else Some (abiError ''Address is invalid.'')
         | _ \<Rightarrow> Some (abiError ''Address is invalid.''))
      else if ty = ''bytes32'' then
        (case a of
           Str s \<Rightarrow> if isHexString 64 s then None else Some (abiError ''Size of bytes does not match expected size (bytes32).'')
         | _ \<Rightarrow> Some (abiError ''Size of bytes does not match expected size (bytes32).''))
      else if ty = ''uint256'' then
        (case a of
           BigIntValue i \<Rightarrow> if 0 \<le> i \<and> i < 2 ^ 256 then None else Some (abiError ''Number is not in safe 256-bit unsigned integer range.'')
         | _ \<Rightarrow> Some (abiError ''Invalid number.''))
      else None)"

fun checkArgs :: "string list \<Rightarrow> js_arg list \<Rightarrow> js_thrown option" where
  "checkArgs (ty # tys) (a # as) =
     (case checkArg ty a of Some e \<Rightarrow> Some e | None \<Rightarrow> checkArgs tys as)"
| "checkArgs tys as = None"

definition renderArg :: "js_arg \<Rightarrow> string" where
  "renderArg a =
     (case a of
        Str s \<Rightarrow> s
      | BigIntValue i \<Rightarrow> String_of_number (nat i)
      | BoolValue b \<Rightarrow> (if b then ''true'' else ''false''))"

definition stubEncode :: "abi_item list \<Rightarrow> string \<Rightarrow> js_arg list \<Rightarrow> js_thrown + string" where
  "stubEncode abi f args =
     (case filter (\<lambda>item. abi_name item = f) abi of
        [] \<Rightarrow> Inl (abiError ''Function not found on ABI.'')
      | item # _ \<Rightarrow>
          (case checkArgs (map snd (inputs item)) args of
             Some e \<Rightarrow> Inl e
           | None \<Rightarrow> Inr (f @ concat (map (\<lambda>a. '','' @ renderArg a) args))))"

definition stubLib :: lib where
  "stubLib =
     \<lparr>parseUnits = (\<lambda>s d. case parseInt s of
                              None \<Rightarrow> Inl (ThrownObject (new_Error ''invalid decimal number''))
                            | Some n \<Rightarrow> Inr (int n)),
      formatUnits = (\<lambda>b d. String_of_number (nat b)),
      BigInt = (\<lambda>s. case parseInt s of
                       None \<Rightarrow> Inl (ThrownObject (new_Error ''cannot convert to BigInt''))
                     | Some n \<Rightarrow> Inr (int n)),
      encodeFunctionData = stubEncode\<rparr>"

text \<open>
  Wallets: one that does not know the chain, the UP extension with one account, and, for
  transfers, one that answers every request with a numbered hash, one that rejects the
  second request of a run with an error object, one that rejects it with \<open>undefined\<close>,
  and one that rejects every request.
\<close>

definition unknownChainWallet :: "unit EthereumProvider" where
  "unknownChainWallet log =
     (if length log = 1 then
        Inl (ThrownObject
               \<lparr>shortMessage = None, message = Some ''Unrecognized chain ID'', code = Some 4902\<rparr>)
      else Inr ())"

definition upExtension :: "string \<Rightarrow> string list option EthereumProvider" where
  "upExtension account log = Inr (Some [account])"

definition failingIndexer :: indexer where
  "failingIndexer =
     \<lparr>lsp7Holds = (\<lambda>a. Response False 500 (Inl (ThrownObject (new_Error ''Unexpected token'')))),
      lsp8Holds = (\<lambda>a. Response True 200 (Inr \<lparr>data = \<lparr>Hold = []\<rparr>, errors = None\<rparr>))\<rparr>"

definition step2Home :: "string \<Rightarrow> string \<Rightarrow> Home" where
  "step2Home src up = initialHome\<lparr>step := 2, savedSourceAddress := src, upAddress := up\<rparr>"

definition heldAsset :: TokenAsset where
  "heldAsset =
     \<lparr>address = ''0xc1'', name = ''Token'', symbol = ''TKN'', type = LSP7, balance = ''100'',
      decimals = 0, selected = True, iconUrl = None, tokenIds = None, transferAmount = ''100''\<rparr>"


definition nftRow :: "string \<Rightarrow> string \<Rightarrow> lsp8_hold" where
  "nftRow collection tokenId =
     \<lparr>lsp8_hold.balance = ''1'', token_id = collection @ ''-'' @ tokenId, baseAsset_id = collection,
      baseAsset = Some \<lparr>asset_id = collection, lsp4TokenName = Some ''Art'',
                        lsp4TokenSymbol = None, icons = []\<rparr>\<rparr>"

definition nftIndexer :: indexer where
  "nftIndexer =
     \<lparr>lsp7Holds = (\<lambda>a. Response True 200 (Inr \<lparr>data = \<lparr>Hold = []\<rparr>, errors = None\<rparr>)),
      lsp8Holds = (\<lambda>a. Response True 200
                          (Inr \<lparr>data = \<lparr>Hold = [nftRow ''0xc0'' ''0x01'', nftRow ''0xc0'' ''0x02'']\<rparr>,
                                errors = None\<rparr>))\<rparr>"

definition artCollection :: TokenAsset where
  "artCollection =
     \<lparr>address = ''0xc0'', name = ''Art'', symbol = ''???'', type = LSP8, balance = ''2'',
      decimals = 0, selected = True, iconUrl = None, tokenIds = Some [''0x01'', ''0x02''],
      transferAmount = ''1''\<rparr>"

text \<open>
  Well-formed addresses and token ids: \<open>0x\<close> followed by 40, respectively 64, copies
  of one hexadecimal digit.
\<close>

definition addressOf :: "char \<Rightarrow> string" where
  "addressOf c = ''0x'' @ replicate 40 c"


definition token :: "string \<Rightarrow> string \<Rightarrow> TokenAsset" where
  "token a amount =
     \<lparr>address = a, name = ''Token'', symbol = ''TKN'', type = LSP7, balance = ''100'',
      decimals = 0, selected = True, iconUrl = None, tokenIds = None, transferAmount = amount\<rparr>"

definition collection :: "string \<Rightarrow> string list \<Rightarrow> TokenAsset" where
  "collection a ids =
     \<lparr>address = a, name = ''Art'', symbol = ''NFT'', type = LSP8,
      balance = String_of_number (length ids), decimals = 0, selected = True, iconUrl = None,
      tokenIds = Some ids, transferAmount = ''1''\<rparr>"

definition userRejected :: js_error where
  "userRejected =
     \<lparr>shortMessage = Some ''User rejected the request.'',
      message = Some ''User denied transaction signature.'', code = Some 4001\<rparr>"

definition hashingWallet :: "string EthereumProvider" where
  "hashingWallet log = Inr (''0xhash'' @ String_of_number (length log))"

definition secondRejects :: "string EthereumProvider" where
  "secondRejects log =
     (if length log = 2 then Inl (ThrownObject userRejected)
      else Inr (''0xhash'' @ String_of_number (length log)))"


definition rejectingWallet :: "string EthereumProvider" where
  "rejectingWallet log = Inl (ThrownObject userRejected)"

text \<open>
  The state before a transfer from the account \<open>0x11\<dots>1\<close> with a given destination,
  and with the Universal Profile \<open>0x22\<dots>2\<close> as destination.
\<close>

definition transferHomeTo :: "string \<Rightarrow> TokenAsset list \<Rightarrow> string EthereumProvider \<Rightarrow> Home" where
  "transferHomeTo up held P =
     initialHome\<lparr>step := 3, savedSourceAddress := addressOf CHR ''1'', upAddress := up,
                 sourceProvider := Some P, assets := held\<rparr>"

definition transferHome :: "TokenAsset list \<Rightarrow> string EthereumProvider \<Rightarrow> Home" where
  "transferHome held P = transferHomeTo (addressOf CHR ''2'') held P"


section \<open>Provider Registry: classification\<close>

lemma toLowerCase_idem: "toLowerCase (toLowerCase s) = toLowerCase s"
proof -
  have "lowerChar (lowerChar c) = lowerChar c" for c
    by (simp add: lowerChar_def split: option.splits if_splits)
  then show ?thesis by (simp add: toLowerCase_def)
qed

lemma isUPWallet_iff:
  "isUPWallet v =
     (\<exists>f \<in> set [''universalprofile'', ''lukso'', ''universal profile'', ''universal-profile''].
        \<exists>pre post. toLowerCase v = pre @ f @ post)"
  unfolding isUPWallet_def Let_def list_ex_iff String_includes_def sublist_def UP_FILTERS_def
  by (rule refl)

lemma isUPWallet_lukso_rdns: "isUPWallet ''io.lukso.up''"
  by code_simp

lemma isUPWallet_lukso_rdns_upper: "isUPWallet ''IO.Lukso.UP''"
  by code_simp

lemma not_isUPWallet_metamask: "\<not> isUPWallet ''io.metamask''"
  by code_simp

text \<open>
  C9. \<open>isUPWallet\<close> is true exactly when the lower-cased string contains one of the four
  tokens as a substring, so it does not depend on the case of its argument; the legacy
  wallets are the providers for which neither the rdns nor the name is so classified;
  \<open>io.lukso.up\<close> is classified as a Universal Profile wallet and \<open>io.metamask\<close> is not.
\<close>

theorem isUPWallet_classification:
  "isUPWallet v =
     (\<exists>f \<in> set [''universalprofile'', ''lukso'', ''universal profile'', ''universal-profile''].
        \<exists>pre post. toLowerCase v = pre @ f @ post)
   \<and> isUPWallet (toLowerCase v) = isUPWallet v
   \<and> set (legacyWallets ps) =
       {p \<in> set ps. \<not> (isUPWallet (rdns (info p)) \<or> isUPWallet (EIP6963ProviderInfo.name (info p)))}
   \<and> isUPWallet ''io.lukso.up'' \<and> isUPWallet ''IO.Lukso.UP'' \<and> \<not> isUPWallet ''io.metamask''"
proof -
  have a: "isUPWallet (toLowerCase v) = isUPWallet v"
    by (simp add: isUPWallet_def toLowerCase_idem)
  have b: "set (legacyWallets ps) =
       {p \<in> set ps. \<not> (isUPWallet (rdns (info p)) \<or> isUPWallet (EIP6963ProviderInfo.name (info p)))}"
    by (auto simp: legacyWallets_def)
  show ?thesis
    apply (intro conjI)
         apply (rule isUPWallet_iff)
        apply (rule a)
       apply (rule b)
      apply (rule isUPWallet_lukso_rdns)
     apply (rule isUPWallet_lukso_rdns_upper)
    apply (rule not_isUPWallet_metamask)
    done
qed


section \<open>Provider Registry: deduplication\<close>

lemma list_ex_uuid:
  "list_ex (\<lambda>p. uuid (info p) = x) prev = (x \<in> set (map (\<lambda>p. uuid (info p)) prev))"
  by (induction prev) auto

lemma find_append_first:
  "find P (xs @ ys) = (case find P xs of Some x \<Rightarrow> Some x | None \<Rightarrow> find P ys)"
  by (induction xs) auto

lemma find_uuid_None:
  "(find (\<lambda>p. uuid (info p) = u) prev = None) = (u \<notin> set (map (\<lambda>p. uuid (info p)) prev))"
  by (induction prev) auto

lemma handleAnnouncement_Some:
  "handleAnnouncement prev (Some d) =
     (if uuid (info d) = [] \<or> uuid (info d) \<in> set (map (\<lambda>p. uuid (info p)) prev) then prev
      else prev @ [d])"
  by (simp add: handleAnnouncement_def list_ex_uuid)

lemma handleAnnouncement_dup:
  "list_ex (\<lambda>p. uuid (info p) = uuid (info d)) prev \<Longrightarrow> handleAnnouncement prev (Some d) = prev"
  by (simp add: handleAnnouncement_def)

lemma uuidsSeen_Cons:
  "uuidsSeen (e # es) = (case e of None \<Rightarrow> {} | Some d \<Rightarrow> {uuid (info d)}) \<union> uuidsSeen es"
  by (cases e) (simp_all add: uuidsSeen_def List.map_filter_simps)

lemma handleAnnouncement_uuids:
  "set (map (\<lambda>p. uuid (info p)) (handleAnnouncement prev e)) =
     set (map (\<lambda>p. uuid (info p)) prev)
       \<union> ((case e of None \<Rightarrow> {} | Some d \<Rightarrow> {uuid (info d)}) - {[]})"
proof (cases e)
  case None
  then show ?thesis by (simp add: handleAnnouncement_def)
next
  case (Some d)
  show ?thesis
  proof (cases "uuid (info d) = [] \<or> uuid (info d) \<in> set (map (\<lambda>p. uuid (info p)) prev)")
    case True
    then have "handleAnnouncement prev e = prev"
      using Some by (simp add: handleAnnouncement_Some)
    then show ?thesis using True Some by auto
  next
    case False
    then have "handleAnnouncement prev e = prev @ [d]"
      using Some by (simp add: handleAnnouncement_Some)
    then show ?thesis using False Some by auto
  qed
qed

lemma handleAnnouncement_distinct:
  assumes "distinct (map (\<lambda>p. uuid (info p)) prev)"
  shows "distinct (map (\<lambda>p. uuid (info p)) (handleAnnouncement prev e))"
proof (cases e)
  case None
  then show ?thesis using assms by (simp add: handleAnnouncement_def)
next
  case (Some d)
  then show ?thesis using assms
    by (simp add: handleAnnouncement_Some)
qed

lemma registry_uuids:
  "set (map (\<lambda>p. uuid (info p)) (foldl handleAnnouncement prev events)) =
     set (map (\<lambda>p. uuid (info p)) prev) \<union> (uuidsSeen events - {[]})"
proof (induction events arbitrary: prev)
  case Nil
  then show ?case by (simp add: uuidsSeen_def List.map_filter_simps)
next
  case (Cons e es)
  show ?case
    unfolding foldl_Cons Cons.IH handleAnnouncement_uuids uuidsSeen_Cons
    by blast
qed

lemma registry_distinct:
  "distinct (map (\<lambda>p. uuid (info p)) prev) \<Longrightarrow>
   distinct (map (\<lambda>p. uuid (info p)) (foldl handleAnnouncement prev events))"
  by (induction events arbitrary: prev) (simp_all add: handleAnnouncement_distinct)

lemma handleAnnouncement_find:
  "find (\<lambda>p. uuid (info p) = u) (handleAnnouncement prev e) =
     (case find (\<lambda>p. uuid (info p) = u) prev of
        Some p \<Rightarrow> Some p
      | None \<Rightarrow>
          (case e of
             None \<Rightarrow> None
           | Some d \<Rightarrow> if u \<noteq> [] \<and> uuid (info d) = u then Some d else None))"
proof (cases e)
  case None
  then show ?thesis by (simp add: handleAnnouncement_def split: option.splits)
next
  case (Some d)
  show ?thesis
  proof (cases "find (\<lambda>p. uuid (info p) = u) prev")
    case None
    then have "u \<notin> set (map (\<lambda>p. uuid (info p)) prev)"
      by (simp add: find_uuid_None)
    then show ?thesis using None \<open>e = Some d\<close>
      by (auto simp: handleAnnouncement_Some find_append_first)
  next
    case (Some p)
    then show ?thesis using \<open>e = Some d\<close>
      by (simp add: handleAnnouncement_Some find_append_first)
  qed
qed

lemma registry_find:
  "find (\<lambda>p. uuid (info p) = u) (foldl handleAnnouncement prev events) =
     (case find (\<lambda>p. uuid (info p) = u) prev of
        Some p \<Rightarrow> Some p
      | None \<Rightarrow> if u = [] then None
                else find (\<lambda>d. uuid (info d) = u) (List.map_filter (\<lambda>e. e) events))"
proof (induction events arbitrary: prev)
  case Nil
  then show ?case by (simp add: List.map_filter_simps split: option.splits)
next
  case (Cons e es)
  show ?case
    unfolding foldl_Cons Cons.IH handleAnnouncement_find
    by (cases e) (simp_all add: List.map_filter_simps split: option.splits)
qed

text \<open>
  C8, as stated, fails: an announcement whose uuid is the empty string is dropped by the
  guard of \<open>handleAnnouncement\<close>, so one distinct uuid has been seen and the registry is
  empty.
\<close>

theorem registry_size_counterexample:
  "length (useEIP6963Providers [Some (announced [] ''Wallet'')]) = 0
   \<and> card (uuidsSeen [Some (announced [] ''Wallet'')]) = 1"
  by (simp add: useEIP6963Providers_def handleAnnouncement_def announced_def uuidsSeen_def
      List.map_filter_simps)

text \<open>
  C8, amended. An announcement whose uuid is that of a recorded provider leaves the
  registry unchanged; the recorded providers have pairwise different uuids; their number
  is the number of distinct non-empty uuids seen (announcements without a uuid or with an
  empty one are ignored); and the provider recorded for a uuid is the first one announced
  with it.
\<close>

theorem registry_deduplication:
  "(list_ex (\<lambda>p. uuid (info p) = uuid (info d)) prev \<longrightarrow> handleAnnouncement prev (Some d) = prev)
   \<and> distinct (map (\<lambda>p. uuid (info p)) (useEIP6963Providers events))
   \<and> length (useEIP6963Providers events) = card (uuidsSeen events - {[]})
   \<and> find (\<lambda>p. uuid (info p) = u) (useEIP6963Providers events) =
       (if u = [] then None
        else find (\<lambda>d. uuid (info d) = u) (List.map_filter (\<lambda>e. e) events))"
proof -
  let ?r = "useEIP6963Providers events"
  have d: "distinct (map (\<lambda>p. uuid (info p)) ?r)"
    unfolding useEIP6963Providers_def by (rule registry_distinct) simp
  have s: "set (map (\<lambda>p. uuid (info p)) ?r) = uuidsSeen events - {[]}"
    unfolding useEIP6963Providers_def registry_uuids by simp
  have "length ?r = length (map (\<lambda>p. uuid (info p)) ?r)" by simp
  also have "\<dots> = card (set (map (\<lambda>p. uuid (info p)) ?r))"
    using d by (rule distinct_card [symmetric])
  finally have l: "length ?r = card (uuidsSeen events - {[]})" using s by simp
  have f: "find (\<lambda>p. uuid (info p) = u) ?r =
       (if u = [] then None
        else find (\<lambda>d. uuid (info d) = u) (List.map_filter (\<lambda>e. e) events))"
    unfolding useEIP6963Providers_def registry_find by simp
  show ?thesis
    apply (intro conjI impI)
       apply (erule handleAnnouncement_dup)
      apply (rule d)
     apply (rule l)
    apply (rule f)
    done
qed

theorem registry_deduplication_witness:
  "list_ex (\<lambda>p. uuid (info p) = uuid (info (announced ''u1'' ''B''))) [announced ''u1'' ''A'']
   \<and> handleAnnouncement [announced ''u1'' ''A''] (Some (announced ''u1'' ''B'')) = [announced ''u1'' ''A'']
   \<and> length (useEIP6963Providers
         [Some (announced ''u1'' ''A''), Some (announced [] ''C''), Some (announced ''u1'' ''B''),
          None, Some (announced ''u2'' ''D'')]) = 2"
proof -
  have h: "list_ex (\<lambda>p. uuid (info p) = uuid (info (announced ''u1'' ''B''))) [announced ''u1'' ''A'']"
    by (simp add: announced_def)
  have c: "card (uuidsSeen
         [Some (announced ''u1'' ''A''), Some (announced [] ''C''), Some (announced ''u1'' ''B''),
          None, Some (announced ''u2'' ''D'')] - {[]}) = 2"
    by code_simp
  from registry_deduplication [of "announced ''u1'' ''B''" "[announced ''u1'' ''A'']"
      "[Some (announced ''u1'' ''A''), Some (announced [] ''C''), Some (announced ''u1'' ''B''),
          None, Some (announced ''u2'' ''D'')]" "[]"] h c
  show ?thesis by simp
qed



section \<open>Session Controller: switching the network\<close>

text \<open>
  C6, as stated, fails: when \<open>window.ethereum\<close> is absent the handler returns before
  any request, so no \<open>wallet_switchEthereumChain\<close> request is issued.
\<close>

theorem switch_without_provider_counterexample:
  "snd (handleSwitchToLukso (None :: unit EthereumProvider option) initialHome) = []
   \<and> Request ''wallet_switchEthereumChain'' (Some [SwitchChainParams ''0x2a''])
       \<notin> set (snd (handleSwitchToLukso (None :: unit EthereumProvider option) initialHome))"
  by (simp add: handleSwitchToLukso_def)

text \<open>
  C6, amended. When \<open>window.ethereum\<close> is present, the first request is
  \<open>wallet_switchEthereumChain\<close> with chain id \<open>0x2a\<close>; a
  \<open>wallet_addEthereumChain\<close> request follows, once and with the full descriptor of the
  target network, exactly when the switch request fails with code 4902; after any other
  outcome the switch request is the only one issued. Without \<open>window.ethereum\<close> no
  request is issued.
\<close>

theorem switch_fallback:
  "snd (handleSwitchToLukso (Some eth) st) =
     (case eth [Request ''wallet_switchEthereumChain'' (Some [SwitchChainParams ''0x2a''])] of
        Inr r \<Rightarrow> [Request ''wallet_switchEthereumChain'' (Some [SwitchChainParams ''0x2a''])]
      | Inl ThrownNullish \<Rightarrow>
          [Request ''wallet_switchEthereumChain'' (Some [SwitchChainParams ''0x2a''])]
      | Inl (ThrownObject e) \<Rightarrow>
          if code e = Some 4902 then
            [Request ''wallet_switchEthereumChain'' (Some [SwitchChainParams ''0x2a'']),
             Request ''wallet_addEthereumChain''
               (Some [AddChainParams
                  \<lparr>chainId = ''0x2a'', chainName = ''LUKSO Mainnet'',
                   nativeCurrency = \<lparr>nativeCurrency_params.name = ''LUKSO'',
                                     nativeCurrency_params.symbol = ''LYX'',
                                     nativeCurrency_params.decimals = 18\<rparr>,
                   rpcUrls = [''https://rpc.mainnet.lukso.network''],
                   blockExplorerUrls = [''https://explorer.execution.mainnet.lukso.network'']\<rparr>])]
          else [Request ''wallet_switchEthereumChain'' (Some [SwitchChainParams ''0x2a''])])
   \<and> snd (handleSwitchToLukso None st) = []
   \<and> switchingNetwork (fst (handleSwitchToLukso (Some eth) st)) = False"
  by (simp add: handleSwitchToLukso_def LUKSO_CHAIN_PARAMS_def Let_def
      split: sum.splits js_thrown.splits)

theorem switch_fallback_witness:
  "snd (handleSwitchToLukso (Some unknownChainWallet) initialHome) =
     [Request ''wallet_switchEthereumChain'' (Some [SwitchChainParams ''0x2a'']),
      Request ''wallet_addEthereumChain'' (Some [AddChainParams LUKSO_CHAIN_PARAMS])]"
proof -
  have r: "unknownChainWallet [Request ''wallet_switchEthereumChain'' (Some [SwitchChainParams ''0x2a''])] =
      Inl (ThrownObject
             \<lparr>shortMessage = None, message = Some ''Unrecognized chain ID'', code = Some 4902\<rparr>)"
    by (simp add: unknownChainWallet_def)
  show ?thesis
    unfolding switch_fallback [of unknownChainWallet initialHome, THEN conjunct1] r
    by (simp add: LUKSO_CHAIN_PARAMS_def)
qed

section \<open>Session Controller: source and destination must differ\<close>

text \<open>
  C7. \<open>isSameAddress\<close> holds exactly when both addresses are set and equal after
  lower-casing. A UP extension account equal, ignoring case, to the saved source address
  is refused: the handler only sets \<open>upError\<close> and leaves the destination as it was.
  When \<open>isSameAddress\<close> holds, \<open>handleFindAssets\<close> only sets \<open>scanError\<close>: it sends
  no query and leaves the step and the assets as they were.
\<close>

theorem same_address_blocks:
  "isSameAddress st =
     (\<exists>src. sourceAddress st = Some src \<and> src \<noteq> [] \<and> upAddress st \<noteq> []
         \<and> toLowerCase (upAddress st) = toLowerCase src)
   \<and> (lukso [Request ''eth_requestAccounts'' None] = Inr (Some (upAddr # others))
        \<and> toLowerCase upAddr = toLowerCase (savedSourceAddress st) \<longrightarrow>
      handleConnectUPExtension (Some lukso) st =
        (st\<lparr>upConnecting := False,
            upError := ''This is the same address as your source wallet. Please connect a different Universal Profile.''\<rparr>,
         [Request ''eth_requestAccounts'' None]))
   \<and> (isSameAddress st \<longrightarrow>
      handleFindAssets L I st =
        (st\<lparr>scanError := ''Source and destination addresses are the same. Please use different wallets.''\<rparr>,
         []))"
proof -
  have a: "isSameAddress st =
     (\<exists>src. sourceAddress st = Some src \<and> src \<noteq> [] \<and> upAddress st \<noteq> []
         \<and> toLowerCase (upAddress st) = toLowerCase src)"
    by (auto simp: isSameAddress_def split: option.splits)
  have b: "handleConnectUPExtension (Some lukso) st =
        (st\<lparr>upConnecting := False,
            upError := ''This is the same address as your source wallet. Please connect a different Universal Profile.''\<rparr>,
         [Request ''eth_requestAccounts'' None])"
    if "lukso [Request ''eth_requestAccounts'' None] = Inr (Some (upAddr # others))"
      and "toLowerCase upAddr = toLowerCase (savedSourceAddress st)"
    using that by (simp add: handleConnectUPExtension_def Let_def)
  have c: "handleFindAssets L I st =
        (st\<lparr>scanError := ''Source and destination addresses are the same. Please use different wallets.''\<rparr>,
         [])" if "isSameAddress st"
  proof -
    from that obtain src where "sourceAddress st = Some src" "src \<noteq> []" "upAddress st \<noteq> []"
      unfolding a by blast
    then show ?thesis using that by (simp add: handleFindAssets_def)
  qed
  show ?thesis using a b c by blast
qed

theorem same_address_blocks_witness:
  "upExtension ''0xABCDEF01'' [Request ''eth_requestAccounts'' None] = Inr (Some (''0xABCDEF01'' # []))
   \<and> toLowerCase ''0xABCDEF01'' = toLowerCase (savedSourceAddress (step2Home ''0xabcDef01'' ''0xAbCdEf01''))
   \<and> isSameAddress (step2Home ''0xabcDef01'' ''0xAbCdEf01'')
   \<and> upAddress (fst (handleConnectUPExtension (Some (upExtension ''0xABCDEF01'')) (step2Home ''0xabcDef01'' ''0xAbCdEf01''))) = ''0xAbCdEf01''
   \<and> upError (fst (handleConnectUPExtension (Some (upExtension ''0xABCDEF01'')) (step2Home ''0xabcDef01'' ''0xAbCdEf01''))) \<noteq> []
   \<and> step (fst (handleFindAssets stubLib failingIndexer (step2Home ''0xabcDef01'' ''0xAbCdEf01''))) = 2
   \<and> snd (handleFindAssets stubLib failingIndexer (step2Home ''0xabcDef01'' ''0xAbCdEf01'')) = []"
proof -
  let ?st = "step2Home ''0xabcDef01'' ''0xAbCdEf01''"
  have h1: "upExtension ''0xABCDEF01'' [Request ''eth_requestAccounts'' None] = Inr (Some (''0xABCDEF01'' # []))"
    by (simp add: upExtension_def)
  have h2: "toLowerCase ''0xABCDEF01'' = toLowerCase (savedSourceAddress ?st)"
    by (simp add: step2Home_def toLowerCase_def lowerChar_def)
  have h3: "isSameAddress ?st"
    by (simp add: isSameAddress_def sourceAddress_def step2Home_def initialHome_def toLowerCase_def lowerChar_def)
  from same_address_blocks [of ?st "upExtension ''0xABCDEF01''" "''0xABCDEF01''" "[]" stubLib failingIndexer]
    h1 h2 h3
  show ?thesis by (simp add: step2Home_def initialHome_def)
qed


section \<open>Indexer Client: a failed scan\<close>

lemma queryIndexer_not_ok:
  "queryIndexer (Response False s body) =
     Inl (ThrownObject (new_Error (''Indexer request failed: '' @ String_of_number s)))"
  by (simp add: queryIndexer_def)

lemma queryIndexer_errors:
  "queryIndexer (Response True s (Inr \<lparr>data = d, errors = Some es\<rparr>)) =
     Inl (ThrownObject (new_Error (orElse (case es of [] \<Rightarrow> None | m # _ \<Rightarrow> m) ''GraphQL error'')))"
  by (simp add: queryIndexer_def)

lemma fetchTokens_fails:
  assumes "isl (queryIndexer (lsp7Holds I (toLowerCase src)))
           \<or> isl (queryIndexer (lsp8Holds I (toLowerCase src)))"
  shows "isl (fst (fetchTokensForAddress L I src))"
  using assms
  by (auto simp: fetchTokensForAddress_def Promise_all_def Let_def isl_def split: sum.splits)

lemma handleFindAssets_fails:
  assumes "sourceAddress st = Some src" "src \<noteq> []" "upAddress st \<noteq> []" "\<not> isSameAddress st"
    and "isl (fst (fetchTokensForAddress L I src))"
  shows "fst (handleFindAssets L I st) =
           st\<lparr>scanError := ''Failed to scan assets. Please try again.'', scanning := False\<rparr>"
  using assms
  by (cases "fetchTokensForAddress L I src")
     (auto simp: handleFindAssets_def Let_def isl_def split: sum.splits)

text \<open>
  C5. A response that is not \<open>ok\<close> makes \<open>queryIndexer\<close> throw the transport error
  with the status; an \<open>errors\<close> array in an \<open>ok\<close> response makes it throw, with the
  first reported message when there is one. When either of the two queries of a scan
  throws, \<open>fetchTokensForAddress\<close> throws and \<open>handleFindAssets\<close> changes only
  \<open>scanError\<close> and \<open>scanning\<close>: the assets, the statuses and the step keep their
  previous values.
\<close>

theorem scan_failure_atomic:
  "queryIndexer (Response False s body) =
     Inl (ThrownObject (new_Error (''Indexer request failed: '' @ String_of_number s)))
   \<and> isl (queryIndexer (Response True s (Inr \<lparr>data = d, errors = Some es\<rparr>)))
   \<and> (m \<noteq> [] \<longrightarrow>
        queryIndexer (Response True s (Inr \<lparr>data = d, errors = Some (Some m # es)\<rparr>)) =
          Inl (ThrownObject (new_Error m)))
   \<and> (sourceAddress st = Some src \<and> src \<noteq> [] \<and> upAddress st \<noteq> [] \<and> \<not> isSameAddress st
        \<and> (isl (queryIndexer (lsp7Holds I (toLowerCase src)))
             \<or> isl (queryIndexer (lsp8Holds I (toLowerCase src)))) \<longrightarrow>
        isl (fst (fetchTokensForAddress L I src))
        \<and> fst (handleFindAssets L I st) =
            st\<lparr>scanError := ''Failed to scan assets. Please try again.'', scanning := False\<rparr>)"
proof -
  have b: "isl (queryIndexer (Response True s (Inr \<lparr>data = d, errors = Some es\<rparr>)))"
    by (simp add: queryIndexer_errors)
  have c: "queryIndexer (Response True s (Inr \<lparr>data = d, errors = Some (Some m # es)\<rparr>)) =
          Inl (ThrownObject (new_Error m))" if "m \<noteq> []"
    using that by (simp add: queryIndexer_errors orElse_def)
  show ?thesis
    using queryIndexer_not_ok b c fetchTokens_fails handleFindAssets_fails by blast
qed

theorem scan_failure_atomic_witness:
  "queryIndexer (lsp7Holds failingIndexer (toLowerCase ''0xAA01'')) =
     Inl (ThrownObject (new_Error ''Indexer request failed: 500''))
   \<and> queryIndexer (Response True 200 (Inr \<lparr>data = (), errors = Some [Some ''bad field'']\<rparr>)) =
       Inl (ThrownObject (new_Error ''bad field''))
   \<and> assets (fst (handleFindAssets stubLib failingIndexer
        ((step2Home ''0xAA01'' ''0xBB02'')\<lparr>assets := [heldAsset]\<rparr>))) = [heldAsset]
   \<and> step (fst (handleFindAssets stubLib failingIndexer
        ((step2Home ''0xAA01'' ''0xBB02'')\<lparr>assets := [heldAsset]\<rparr>))) = 2"
proof -
  let ?st = "(step2Home ''0xAA01'' ''0xBB02'')\<lparr>assets := [heldAsset]\<rparr>"
  have q: "queryIndexer (lsp7Holds failingIndexer (toLowerCase ''0xAA01'')) =
     Inl (ThrownObject (new_Error ''Indexer request failed: 500''))"
    by (simp add: failingIndexer_def queryIndexer_def digitChar_def)
  have h: "sourceAddress ?st = Some ''0xAA01'' \<and> ''0xAA01'' \<noteq> [] \<and> upAddress ?st \<noteq> []
      \<and> \<not> isSameAddress ?st
      \<and> (isl (queryIndexer (lsp7Holds failingIndexer (toLowerCase ''0xAA01'')))
           \<or> isl (queryIndexer (lsp8Holds failingIndexer (toLowerCase ''0xAA01''))))"
    unfolding q
    by (simp add: sourceAddress_def isSameAddress_def step2Home_def initialHome_def
        toLowerCase_def lowerChar_def)
  have m: "''bad field'' \<noteq> []" by simp
  note T = scan_failure_atomic [of 200 "Inl (ThrownObject (new_Error ''x''))" "()" "[]" "''bad field''" ?st
      "''0xAA01''" failingIndexer stubLib]
  from T m have e2: "queryIndexer (Response True 200 (Inr \<lparr>data = (), errors = Some [Some ''bad field'']\<rparr>)) =
       Inl (ThrownObject (new_Error ''bad field''))"
    by blast
  from T h have e3: "fst (handleFindAssets stubLib failingIndexer ?st) =
      ?st\<lparr>scanError := ''Failed to scan assets. Please try again.'', scanning := False\<rparr>"
    by blast
  have e4: "assets (fst (handleFindAssets stubLib failingIndexer ?st)) = [heldAsset]"
    unfolding e3 by simp
  have e5: "step (fst (handleFindAssets stubLib failingIndexer ?st)) = 2"
    unfolding e3 by (simp add: step2Home_def)
  show ?thesis using q e2 e4 e5 by blast
qed



section \<open>Indexer Client: grouping of LSP8 rows\<close>

declare String_of_number.simps [simp del]

lemma digitValue_digitChar: "d < 10 \<Longrightarrow> digitValue (digitChar d) = Some d"
proof -
  assume "d < 10"
  then have "d \<in> {0, 1, 2, 3, 4, 5, 6, 7, 8, 9}" by auto
  then show ?thesis
    by (auto simp: digitValue_def digitChar_def)
qed

lemma readDigits_snoc:
  "list_all (\<lambda>c. digitValue c \<noteq> None) xs \<Longrightarrow> d < 10 \<Longrightarrow>
   readDigits acc (xs @ [digitChar d]) = readDigits acc xs * 10 + d"
  by (induction xs arbitrary: acc) (auto simp: digitValue_digitChar)

lemma String_of_number_digits: "list_all (\<lambda>c. digitValue c \<noteq> None) (String_of_number n)"
proof (induction n rule: String_of_number.induct)
  case (1 n)
  show ?case
  proof (cases "n < 10")
    case True
    then show ?thesis
      by (subst String_of_number.simps) (simp add: digitValue_digitChar)
  next
    case False
    then show ?thesis
      using 1 by (subst String_of_number.simps) (simp add: digitValue_digitChar)
  qed
qed

lemma String_of_number_nonempty: "String_of_number n \<noteq> []"
  by (subst String_of_number.simps) simp

lemma readDigits_String_of_number: "readDigits 0 (String_of_number n) = n"
proof (induction n rule: String_of_number.induct)
  case (1 n)
  show ?case
  proof (cases "n < 10")
    case True
    then show ?thesis
      by (subst String_of_number.simps) (simp add: digitValue_digitChar)
  next
    case False
    then have "readDigits 0 (String_of_number (n div 10)) = n div 10"
      using 1 by simp
    moreover have "readDigits 0 (String_of_number (n div 10) @ [digitChar (n mod 10)]) =
        readDigits 0 (String_of_number (n div 10)) * 10 + n mod 10"
      by (rule readDigits_snoc [OF String_of_number_digits]) simp
    moreover have "String_of_number n = String_of_number (n div 10) @ [digitChar (n mod 10)]"
      using False by (subst String_of_number.simps) simp
    ultimately show ?thesis by simp
  qed
qed

lemma parseInt_digits:
  "s \<noteq> [] \<Longrightarrow> list_all (\<lambda>c. digitValue c \<noteq> None) s \<Longrightarrow> parseInt s = Some (readDigits 0 s)"
  by (cases s) (auto simp: parseInt_def)

lemma parseInt_String_of_number: "parseInt (String_of_number n) = Some n"
  using parseInt_digits [OF String_of_number_nonempty String_of_number_digits, of n]
  by (simp add: readDigits_String_of_number)

lemma String_of_number_1: "String_of_number (Suc 0) = ''1''"
  by (subst String_of_number.simps) (simp add: digitChar_def)

lemma map_of_replace:
  "map_of (map (\<lambda>(k', v'). if k' = k then (k', v) else (k', v')) m) x =
     (if x = k then map_option (\<lambda>_. v) (map_of m k) else map_of m x)"
  by (induction m) auto

lemma keys_replace:
  "map fst (map (\<lambda>(k', v'). if k' = k then (k', v) else (k', v')) m) = map fst m"
  by (induction m) auto

lemma rowsOfCollection_snoc:
  "rowsOfCollection k (holds @ [h]) =
     rowsOfCollection k holds @ (if map_option asset_id (baseAsset h) = Some k then [h] else [])"
  by (simp add: rowsOfCollection_def)

lemma groups_Nil: "groups [] []"
  by (simp add: groups_def rowsOfCollection_def)

lemma map_of_snoc:
  "map_of (m @ [(k0, v0)]) k =
     (case map_of m k of Some v \<Rightarrow> Some v | None \<Rightarrow> if k = k0 then Some v0 else None)"
  by (simp add: map_add_def split: option.splits)

lemma groupsI:
  assumes "distinct (map fst m)"
    and "\<And>k. (map_of m k = None) = (rowsOfCollection k holds = [])"
    and "\<And>k v. map_of m k = Some v \<Longrightarrow>
           address v = k \<and> type v = LSP8
           \<and> tokenIds v = Some (map tokenIdOf (rowsOfCollection k holds))
           \<and> balance v = String_of_number (length (rowsOfCollection k holds))"
  shows "groups m holds"
  using assms unfolding groups_def by blast

lemma groupsD:
  assumes "groups m holds"
  shows "distinct (map fst m)"
    and "(map_of m k = None) = (rowsOfCollection k holds = [])"
    and "map_of m k = Some v \<Longrightarrow>
           address v = k \<and> type v = LSP8
           \<and> tokenIds v = Some (map tokenIdOf (rowsOfCollection k holds))
           \<and> balance v = String_of_number (length (rowsOfCollection k holds))"
  using assms unfolding groups_def by blast+

lemma groups_step:
  assumes g: "groups m holds"
  shows "groups (collectHold m h) (holds @ [h])"
proof (cases "baseAsset h")
  case None
  have "collectHold m h = m" using None by (simp add: collectHold_def)
  moreover have "rowsOfCollection k (holds @ [h]) = rowsOfCollection k holds" for k
    using None by (simp add: rowsOfCollection_snoc)
  ultimately show ?thesis using g by (simp add: groups_def)
next
  case (Some b)
  let ?k0 = "asset_id b"
  have rows: "rowsOfCollection k (holds @ [h]) =
      rowsOfCollection k holds @ (if k = ?k0 then [h] else [])" for k
    using Some by (auto simp: rowsOfCollection_snoc)
  show ?thesis
  proof (cases "map_of m ?k0")
    case None
    let ?new = "\<lparr>address = ?k0,
                 name = orElse (lsp4TokenName b) ''Unknown NFT'',
                 symbol = orElse (lsp4TokenSymbol b) ''???'',
                 type = LSP8, balance = ''1'', decimals = 0, selected = True,
                 iconUrl = (case icons b of [] \<Rightarrow> None | src # _ \<Rightarrow> Some src),
                 tokenIds = Some [tokenIdOf h], transferAmount = ''1''\<rparr>"
    have ch: "collectHold m h = m @ [(?k0, ?new)]"
      using Some None by (simp add: collectHold_def Let_def tokenIdOf_def)
    have notin: "?k0 \<notin> set (map fst m)"
      using None by (simp add: map_of_eq_None_iff)
    have rows0: "rowsOfCollection ?k0 holds = []"
      using groupsD(2) [OF g, of ?k0] None by simp
    show ?thesis
      unfolding ch
    proof (rule groupsI)
      show "distinct (map fst (m @ [(?k0, ?new)]))"
        using groupsD(1) [OF g] notin by simp
    next
      fix k
      show "(map_of (m @ [(?k0, ?new)]) k = None) = (rowsOfCollection k (holds @ [h]) = [])"
        using groupsD(2) [OF g, of k]
        by (cases "k = ?k0") (simp_all add: map_of_snoc rows None split: option.splits)
    next
      fix k v
      assume a: "map_of (m @ [(?k0, ?new)]) k = Some v"
      show "address v = k \<and> type v = LSP8
           \<and> tokenIds v = Some (map tokenIdOf (rowsOfCollection k (holds @ [h])))
           \<and> balance v = String_of_number (length (rowsOfCollection k (holds @ [h])))"
      proof (cases "k = ?k0")
        case True
        then have "v = ?new" using a [unfolded map_of_snoc] None by simp
        then show ?thesis using True rows0 by (simp add: rows String_of_number_1)
      next
        case False
        then have "map_of m k = Some v"
          using a [unfolded map_of_snoc] by (simp split: option.splits)
        then show ?thesis using groupsD(3) [OF g, of k v] False by (simp add: rows)
      qed
    qed
  next
    case (Some existing)
    note ex = this
    let ?upd = "existing\<lparr>balance :=
                   String_of_NaN_or_number (map_option Suc (parseInt (balance existing))),
                 tokenIds :=
                   map_option
                     (\<lambda>ids. ids @ [slice (token_id h) (indexOf (token_id h) CHR ''-'' + 1)])
                     (tokenIds existing)\<rparr>"
    have ch: "collectHold m h = map (\<lambda>(k, v). if k = ?k0 then (k, ?upd) else (k, v)) m"
      using \<open>baseAsset h = Some b\<close> ex by (simp add: collectHold_def Let_def)
    have e: "address existing = ?k0 \<and> type existing = LSP8
      \<and> tokenIds existing = Some (map tokenIdOf (rowsOfCollection ?k0 holds))
      \<and> balance existing = String_of_number (length (rowsOfCollection ?k0 holds))"
      using groupsD(3) [OF g ex] .
    show ?thesis
      unfolding ch
    proof (rule groupsI)
      show "distinct (map fst (map (\<lambda>(k, v). if k = ?k0 then (k, ?upd) else (k, v)) m))"
        using groupsD(1) [OF g] by (simp only: keys_replace)
    next
      fix k
      show "(map_of (map (\<lambda>(k, v). if k = ?k0 then (k, ?upd) else (k, v)) m) k = None) =
              (rowsOfCollection k (holds @ [h]) = [])"
        using groupsD(2) [OF g, of k]
        by (cases "k = ?k0") (simp_all add: map_of_replace rows ex)
    next
      fix k v
      assume a: "map_of (map (\<lambda>(k, v). if k = ?k0 then (k, ?upd) else (k, v)) m) k = Some v"
      show "address v = k \<and> type v = LSP8
           \<and> tokenIds v = Some (map tokenIdOf (rowsOfCollection k (holds @ [h])))
           \<and> balance v = String_of_number (length (rowsOfCollection k (holds @ [h])))"
      proof (cases "k = ?k0")
        case True
        then have "v = ?upd" using a ex by (simp add: map_of_replace)
        then show ?thesis using True e
          by (simp add: rows parseInt_String_of_number String_of_NaN_or_number_def tokenIdOf_def)
      next
        case False
        then have "map_of m k = Some v" using a by (simp add: map_of_replace)
        then show ?thesis using groupsD(3) [OF g, of k v] False by (simp add: rows)
      qed
    qed
  qed
qed

lemma groups_foldl: "groups m done \<Longrightarrow> groups (foldl collectHold m holds) (done @ holds)"
proof (induction holds arbitrary: m "done")
  case Nil
  then show ?case by simp
next
  case (Cons h hs)
  have "groups (collectHold m h) (done @ [h])"
    using Cons.prems by (rule groups_step)
  then have "groups (foldl collectHold (collectHold m h) hs) ((done @ [h]) @ hs)"
    by (rule Cons.IH)
  then show ?case by simp
qed

lemma groups_processLSP8: "groups (foldl collectHold [] holds) holds"
  using groups_foldl [OF groups_Nil, of holds] by simp

lemma groups_entry:
  assumes "groups m holds" "(k, v) \<in> set m"
  shows "address v = k \<and> type v = LSP8
         \<and> tokenIds v = Some (map tokenIdOf (rowsOfCollection k holds))
         \<and> balance v = String_of_number (length (rowsOfCollection k holds))"
proof -
  have "map_of m k = Some v"
    using assms groupsD(1) [OF assms(1)] by simp
  then show ?thesis by (rule groupsD(3) [OF assms(1)])
qed

lemma groups_addresses:
  assumes "groups m holds"
  shows "map address (map snd m) = map fst m"
proof -
  have "address (snd x) = fst x" if "x \<in> set m" for x
    using groups_entry [OF assms, of "fst x" "snd x"] that by simp
  then show ?thesis by simp
qed

lemma groups_keys:
  assumes "groups m holds"
  shows "set (map fst m) = {asset_id b |h b. h \<in> set holds \<and> baseAsset h = Some b}"
proof -
  have "(k \<in> set (map fst m)) = (rowsOfCollection k holds \<noteq> [])" for k
    using groupsD(2) [OF assms, of k] unfolding map_of_eq_None_iff by auto
  moreover have "(rowsOfCollection k holds \<noteq> []) =
      (\<exists>h b. k = asset_id b \<and> h \<in> set holds \<and> baseAsset h = Some b)" for k
    by (auto simp: rowsOfCollection_def filter_empty_conv)
  ultimately have "(k \<in> set (map fst m)) =
      (k \<in> {asset_id b |h b. h \<in> set holds \<and> baseAsset h = Some b})" for k
    by simp
  then show ?thesis by (rule set_eqI)
qed

lemma processLSP8_member:
  assumes "t \<in> set (processLSP8 holds)"
  shows "type t = LSP8
         \<and> tokenIds t = Some (map tokenIdOf (rowsOfCollection (address t) holds))
         \<and> balance t = String_of_number (length (rowsOfCollection (address t) holds))
         \<and> map_option length (tokenIds t) = parseInt (balance t)"
proof -
  from assms obtain k where "(k, t) \<in> set (foldl collectHold [] holds)"
    by (auto simp: processLSP8_def)
  from groups_entry [OF groups_processLSP8 this]
  show ?thesis by (simp add: parseInt_String_of_number)
qed

lemma processLSP7_type: "processLSP7 L holds = Inr ts \<Longrightarrow> \<forall>t \<in> set ts. type t = LSP7"
proof (induction holds arbitrary: ts)
  case Nil
  then show ?case by simp
next
  case (Cons h hs)
  then show ?case
    by (auto simp: Let_def split: option.splits sum.splits)
qed

lemma fetchTokens_Inr:
  assumes "fst (fetchTokensForAddress L I src) = Inr tokens"
  shows "\<exists>d7 d8 ts. queryIndexer (lsp7Holds I (toLowerCase src)) = Inr d7
           \<and> queryIndexer (lsp8Holds I (toLowerCase src)) = Inr d8
           \<and> processLSP7 L (Hold d7) = Inr ts
           \<and> tokens = ts @ processLSP8 (Hold d8)"
proof (cases "queryIndexer (lsp7Holds I (toLowerCase src))")
  case (Inl e)
  then show ?thesis using assms
    by (simp add: fetchTokensForAddress_def Promise_all_def Let_def)
next
  case (Inr d7)
  note q7 = this
  show ?thesis
  proof (cases "queryIndexer (lsp8Holds I (toLowerCase src))")
    case (Inl e)
    then show ?thesis using assms q7
      by (simp add: fetchTokensForAddress_def Promise_all_def Let_def)
  next
    case (Inr d8)
    note q8 = this
    show ?thesis
    proof (cases "processLSP7 L (Hold d7)")
      case (Inl e)
      then show ?thesis using assms q7 q8
        by (simp add: fetchTokensForAddress_def Promise_all_def Let_def)
    next
      case (Inr ts)
      then show ?thesis using assms q7 q8
        by (simp add: fetchTokensForAddress_def Promise_all_def Let_def)
    qed
  qed
qed

lemma fetchTokens_LSP8_part:
  assumes "fst (fetchTokensForAddress L I src) = Inr tokens"
  shows "\<exists>d. queryIndexer (lsp8Holds I (toLowerCase src)) = Inr d
             \<and> filter (\<lambda>t. type t = LSP8) tokens = processLSP8 (Hold d)"
proof -
  from fetchTokens_Inr [OF assms] obtain d7 d8 ts where
    q7: "queryIndexer (lsp7Holds I (toLowerCase src)) = Inr d7"
    and q: "queryIndexer (lsp8Holds I (toLowerCase src)) = Inr d8"
    and p: "processLSP7 L (Hold d7) = Inr ts"
    and t: "tokens = ts @ processLSP8 (Hold d8)"
    by blast
  have "\<forall>t \<in> set ts. type t \<noteq> LSP8"
    using processLSP7_type [OF p] by simp
  then have "filter (\<lambda>t. type t = LSP8) ts = []"
    by (simp add: filter_empty_conv)
  moreover have "\<forall>t \<in> set (processLSP8 (Hold d8)). type t = LSP8"
    using processLSP8_member by blast
  then have "filter (\<lambda>t. type t = LSP8) (processLSP8 (Hold d8)) = processLSP8 (Hold d8)"
    by (simp add: filter_id_conv)
  ultimately show ?thesis using q t by simp
qed

lemma two_rows:
  assumes "baseAsset h1 = Some b1" "baseAsset h2 = Some b2" "asset_id b1 = asset_id b2"
  shows "\<exists>t. processLSP8 [h1, h2] = [t] \<and> address t = asset_id b1
            \<and> tokenIds t = Some [tokenIdOf h1, tokenIdOf h2] \<and> balance t = ''2''"
proof -
  let ?new = "\<lparr>address = asset_id b1,
               name = orElse (lsp4TokenName b1) ''Unknown NFT'',
               symbol = orElse (lsp4TokenSymbol b1) ''???'',
               type = LSP8, balance = ''1'', decimals = 0, selected = True,
               iconUrl = (case icons b1 of [] \<Rightarrow> None | src # _ \<Rightarrow> Some src),
               tokenIds = Some [tokenIdOf h1], transferAmount = ''1''\<rparr>"
  have p: "parseInt ''1'' = Some 1"
    by (simp add: parseInt_def digitValue_def)
  have s2: "String_of_number (Suc (Suc 0)) = ''2''"
    by (subst String_of_number.simps) (simp add: digitChar_def)
  have c1: "collectHold [] h1 = [(asset_id b1, ?new)]"
    using assms(1) by (simp add: collectHold_def Let_def tokenIdOf_def)
  have c2: "collectHold [(asset_id b1, ?new)] h2 =
      [(asset_id b1, ?new\<lparr>balance := ''2'', tokenIds := Some [tokenIdOf h1, tokenIdOf h2]\<rparr>)]"
    using assms(2,3) p s2
    by (simp add: collectHold_def Let_def tokenIdOf_def String_of_NaN_or_number_def)
  show ?thesis
    by (simp add: processLSP8_def c1 c2)
qed

text \<open>
  C3. The LSP8 assets that \<open>fetchTokensForAddress\<close> returns are those of
  \<open>processLSP8\<close>, one for each distinct collection address among the rows that have a
  \<open>baseAsset\<close>. The \<open>tokenIds\<close> of each are the ids extracted from the rows of its
  collection, in the order of the rows, its \<open>balance\<close> is the decimal numeral of their
  number, and so the length of \<open>tokenIds\<close> is the balance read as an integer. Two rows
  of one collection give one asset with both ids in order and the balance \<open>2\<close>.
\<close>

theorem lsp8_grouping:
  "distinct (map address (processLSP8 holds))
   \<and> set (map address (processLSP8 holds)) =
       {asset_id b |h b. h \<in> set holds \<and> baseAsset h = Some b}
   \<and> (\<forall>t \<in> set (processLSP8 holds).
         type t = LSP8
         \<and> tokenIds t = Some (map tokenIdOf (rowsOfCollection (address t) holds))
         \<and> balance t = String_of_number (length (rowsOfCollection (address t) holds))
         \<and> map_option length (tokenIds t) = parseInt (balance t))
   \<and> (fst (fetchTokensForAddress L I src) = Inr tokens \<longrightarrow>
        (\<exists>d. queryIndexer (lsp8Holds I (toLowerCase src)) = Inr d
             \<and> filter (\<lambda>t. type t = LSP8) tokens = processLSP8 (Hold d)))
   \<and> (baseAsset h1 = Some b1 \<and> baseAsset h2 = Some b2 \<and> asset_id b1 = asset_id b2 \<longrightarrow>
        (\<exists>t. processLSP8 [h1, h2] = [t] \<and> address t = asset_id b1
            \<and> tokenIds t = Some [tokenIdOf h1, tokenIdOf h2] \<and> balance t = ''2''))"
proof -
  let ?m = "foldl collectHold [] holds"
  have g: "groups ?m holds" by (rule groups_processLSP8)
  have a: "map address (processLSP8 holds) = map fst ?m"
    unfolding processLSP8_def by (rule groups_addresses [OF g])
  have d: "distinct (map address (processLSP8 holds))"
    unfolding a by (rule groupsD(1) [OF g])
  have s: "set (map address (processLSP8 holds)) =
       {asset_id b |h b. h \<in> set holds \<and> baseAsset h = Some b}"
    unfolding a by (rule groups_keys [OF g])
  have m: "\<forall>t \<in> set (processLSP8 holds).
         type t = LSP8
         \<and> tokenIds t = Some (map tokenIdOf (rowsOfCollection (address t) holds))
         \<and> balance t = String_of_number (length (rowsOfCollection (address t) holds))
         \<and> map_option length (tokenIds t) = parseInt (balance t)"
    using processLSP8_member by blast
  have f: "fst (fetchTokensForAddress L I src) = Inr tokens \<longrightarrow>
        (\<exists>d. queryIndexer (lsp8Holds I (toLowerCase src)) = Inr d
             \<and> filter (\<lambda>t. type t = LSP8) tokens = processLSP8 (Hold d))"
    using fetchTokens_LSP8_part by blast
  have t: "baseAsset h1 = Some b1 \<and> baseAsset h2 = Some b2 \<and> asset_id b1 = asset_id b2 \<longrightarrow>
        (\<exists>t. processLSP8 [h1, h2] = [t] \<and> address t = asset_id b1
            \<and> tokenIds t = Some [tokenIdOf h1, tokenIdOf h2] \<and> balance t = ''2'')"
    using two_rows by blast
  show ?thesis
    by (rule conjI [OF d conjI [OF s conjI [OF m conjI [OF f t]]]])
qed

theorem lsp8_grouping_witness:
  "artCollection \<in> set (processLSP8 [nftRow ''0xc0'' ''0x01'', nftRow ''0xc0'' ''0x02''])
   \<and> fst (fetchTokensForAddress stubLib nftIndexer ''0xAA01'') = Inr [artCollection]
   \<and> baseAsset (nftRow ''0xc0'' ''0x01'') = baseAsset (nftRow ''0xc0'' ''0x02'')
   \<and> processLSP8 [nftRow ''0xc0'' ''0x01'', nftRow ''0xc0'' ''0x02''] = [artCollection]
   \<and> tokenIds artCollection = Some [''0x01'', ''0x02'']
   \<and> balance artCollection = ''2''
   \<and> map_option length (tokenIds artCollection) = parseInt (balance artCollection)
   \<and> filter (\<lambda>t. type t = LSP8) [artCollection] = [artCollection]"
proof -
  let ?rows = "[nftRow ''0xc0'' ''0x01'', nftRow ''0xc0'' ''0x02'']"
  let ?b = "\<lparr>asset_id = ''0xc0'', lsp4TokenName = Some ''Art'', lsp4TokenSymbol = None, icons = []\<rparr>"
  note T = lsp8_grouping [of ?rows stubLib nftIndexer "''0xAA01''" "[artCollection]"
      "nftRow ''0xc0'' ''0x01''" ?b "nftRow ''0xc0'' ''0x02''" ?b]
  have e1: "processLSP8 ?rows = [artCollection]" by code_simp
  have e2: "fst (fetchTokensForAddress stubLib nftIndexer ''0xAA01'') = Inr [artCollection]"
    by code_simp
  have mem: "artCollection \<in> set (processLSP8 ?rows)" unfolding e1 by simp
  have b: "baseAsset (nftRow ''0xc0'' ''0x01'') = Some ?b \<and> baseAsset (nftRow ''0xc0'' ''0x02'') = Some ?b
      \<and> asset_id ?b = asset_id ?b"
    by (simp add: nftRow_def)
  note T3 = T [THEN conjunct2, THEN conjunct2, THEN conjunct1, THEN bspec, OF mem]
  note T5 = T [THEN conjunct2, THEN conjunct2, THEN conjunct2, THEN conjunct2, THEN mp, OF b]
  from T3 have w1: "map_option length (tokenIds artCollection) = parseInt (balance artCollection)"
    by (elim conjE)
  from T5 obtain t where w2: "processLSP8 ?rows = [t]" "balance t = ''2''"
      "tokenIds t = Some [tokenIdOf (nftRow ''0xc0'' ''0x01''), tokenIdOf (nftRow ''0xc0'' ''0x02'')]"
    by (elim exE conjE)
  have t: "t = artCollection" using w2(1) e1 by simp
  have ids: "tokenIdOf (nftRow ''0xc0'' ''0x01'') = ''0x01''" "tokenIdOf (nftRow ''0xc0'' ''0x02'') = ''0x02''"
    by code_simp+
  have f: "filter (\<lambda>t. type t = LSP8) [artCollection] = [artCollection]"
    by (simp add: artCollection_def)
  show ?thesis
    using mem e2 b e1 w1 w2(2,3) f unfolding t ids by simp
qed


section \<open>Transfer Engine: the loop over the selected assets\<close>

lemma notin_image_neq: "x \<in> set xs \<Longrightarrow> y \<notin> f ` set xs \<Longrightarrow> f x \<noteq> y"
  by (metis imageI)

lemma sendViaProvider_eq:
  "sendViaProvider P log from to d = (P (log @ [transaction from to d]), log @ [transaction from to d])"
  by (simp add: sendViaProvider_def transaction_def Let_def)

lemma sentTo_transaction: "sentTo a (transaction from to d) = (to = a)"
  by (simp add: sentTo_def transaction_def)

lemma sendTokenIds_sent:
  "\<exists>new. snd (sendTokenIds L P src up c ids last0 log) = log @ new
     \<and> length new \<le> length ids
     \<and> (\<forall>k < length new. \<exists>d. lsp8Calldata L src up (ids ! k) = Inr d
                              \<and> new ! k = transaction src c d)
     \<and> (case fst (sendTokenIds L P src up c ids last0 log) of
          Inr h \<Rightarrow> length new = length ids \<and> (if ids = [] then h = last0 else P (log @ new) = Inr h)
        | Inl t \<Rightarrow> (length new < length ids \<and> lsp8Calldata L src up (ids ! length new) = Inl t)
                   \<or> (new \<noteq> [] \<and> P (log @ new) = Inl t))"
proof (induction ids arbitrary: last0 log)
  case Nil
  then show ?case by simp
next
  case (Cons t ts)
  show ?case
  proof (cases "lsp8Calldata L src up t")
    case (Inl e)
    then have "sendTokenIds L P src up c (t # ts) last0 log = (Inl e, log)"
      by (simp add: lsp8Calldata_def)
    then show ?thesis using Inl by simp
  next
    case (Inr d)
    let ?tx = "transaction src c d"
    show ?thesis
    proof (cases "P (log @ [?tx])")
      case (Inl e)
      then have r: "sendTokenIds L P src up c (t # ts) last0 log = (Inl e, log @ [?tx])"
        using Inr by (simp add: lsp8Calldata_def sendViaProvider_eq)
      have "snd (sendTokenIds L P src up c (t # ts) last0 log) = log @ [?tx]
         \<and> length [?tx] \<le> length (t # ts)
         \<and> (\<forall>k < length [?tx]. \<exists>d. lsp8Calldata L src up ((t # ts) ! k) = Inr d
                              \<and> [?tx] ! k = transaction src c d)
         \<and> (case fst (sendTokenIds L P src up c (t # ts) last0 log) of
          Inr h \<Rightarrow> length [?tx] = length (t # ts)
                    \<and> (if t # ts = [] then h = last0 else P (log @ [?tx]) = Inr h)
        | Inl t' \<Rightarrow> (length [?tx] < length (t # ts)
                      \<and> lsp8Calldata L src up ((t # ts) ! length [?tx]) = Inl t')
                   \<or> ([?tx] \<noteq> [] \<and> P (log @ [?tx]) = Inl t'))"
        unfolding r using Inr Inl by simp
      then show ?thesis by blast
    next
      case h: (Inr h)
      have r: "sendTokenIds L P src up c (t # ts) last0 log =
                 sendTokenIds L P src up c ts h (log @ [?tx])"
        using Inr h by (simp add: lsp8Calldata_def sendViaProvider_eq)
      from Cons.IH [of h "log @ [?tx]"] obtain new where
        n1: "snd (sendTokenIds L P src up c ts h (log @ [?tx])) = (log @ [?tx]) @ new"
        and n2: "length new \<le> length ts"
        and n3: "\<forall>k < length new. \<exists>d. lsp8Calldata L src up (ts ! k) = Inr d
                              \<and> new ! k = transaction src c d"
        and n4: "(case fst (sendTokenIds L P src up c ts h (log @ [?tx])) of
          Inr h' \<Rightarrow> length new = length ts
                     \<and> (if ts = [] then h' = h else P ((log @ [?tx]) @ new) = Inr h')
        | Inl t' \<Rightarrow> (length new < length ts \<and> lsp8Calldata L src up (ts ! length new) = Inl t')
                   \<or> (new \<noteq> [] \<and> P ((log @ [?tx]) @ new) = Inl t'))"
        by blast
      have a: "snd (sendTokenIds L P src up c (t # ts) last0 log) = log @ (?tx # new)"
        unfolding r n1 by simp
      have b: "length (?tx # new) \<le> length (t # ts)" using n2 by simp
      have c: "\<forall>k < length (?tx # new). \<exists>d. lsp8Calldata L src up ((t # ts) ! k) = Inr d
                              \<and> (?tx # new) ! k = transaction src c d"
      proof (intro allI impI)
        fix k
        assume k: "k < length (?tx # new)"
        show "\<exists>d. lsp8Calldata L src up ((t # ts) ! k) = Inr d
                              \<and> (?tx # new) ! k = transaction src c d"
        proof (cases k)
          case 0
          then show ?thesis using Inr by simp
        next
          case (Suc k')
          then have "k' < length new" using k by simp
          with n3 show ?thesis using Suc by simp
        qed
      qed
      have d: "(case fst (sendTokenIds L P src up c (t # ts) last0 log) of
          Inr h' \<Rightarrow> length (?tx # new) = length (t # ts)
                     \<and> (if t # ts = [] then h' = last0 else P (log @ (?tx # new)) = Inr h')
        | Inl t' \<Rightarrow> (length (?tx # new) < length (t # ts)
                       \<and> lsp8Calldata L src up ((t # ts) ! length (?tx # new)) = Inl t')
                   \<or> (?tx # new \<noteq> [] \<and> P (log @ (?tx # new)) = Inl t'))"
      proof (cases "fst (sendTokenIds L P src up c ts h (log @ [?tx]))")
        case (Inl t')
        then show ?thesis using n4 unfolding r by auto
      next
        case (Inr h')
        then have l: "length new = length ts"
          and v: "if ts = [] then h' = h else P ((log @ [?tx]) @ new) = Inr h'"
          using n4 by (auto split: if_splits)
        have "P (log @ (?tx # new)) = Inr h'"
        proof (cases "ts = []")
          case True
          then have "new = []" using l by simp
          then show ?thesis using v True h by simp
        next
          case False
          then show ?thesis using v by simp
        qed
        then show ?thesis unfolding r Inr using l by simp
      qed
      from a b c d show ?thesis by blast
    qed
  qed
qed

lemma sendTokenIds_log:
  "\<exists>new. snd (sendTokenIds L P src up c ids last0 log) = log @ new
         \<and> (\<forall>q \<in> set new. \<exists>d. q = transaction src c d)"
proof -
  from sendTokenIds_sent [of L P src up c ids last0 log] obtain new where
    n: "snd (sendTokenIds L P src up c ids last0 log) = log @ new"
       "\<forall>k < length new. \<exists>d. lsp8Calldata L src up (ids ! k) = Inr d
                              \<and> new ! k = transaction src c d"
    by blast
  have "\<forall>q \<in> set new. \<exists>d. q = transaction src c d"
  proof
    fix q
    assume "q \<in> set new"
    then obtain k where "k < length new" "q = new ! k" by (auto simp: in_set_conv_nth)
    with n(2) show "\<exists>d. q = transaction src c d" by auto
  qed
  with n(1) show ?thesis by blast
qed

lemma tryTransfer_log:
  "\<exists>new. snd (tryTransfer L P src up a log) = log @ new
         \<and> (\<forall>q \<in> set new. \<exists>d. q = transaction src (address a) d)"
proof (cases "type a")
  case LSP7
  have "snd (tryTransfer L P src up a log) = log
      \<or> (\<exists>d. snd (tryTransfer L P src up a log) = log @ [transaction src (address a) d])"
    using LSP7
    by (auto simp: tryTransfer_def sendViaProvider_eq split: sum.splits)
  then show ?thesis by auto
next
  case LSP8
  show ?thesis
  proof (cases "tokenIds a")
    case None
    then show ?thesis using LSP8 by (simp add: tryTransfer_def)
  next
    case (Some ids)
    from sendTokenIds_log [of L P src up "address a" ids "[]" log] obtain new where
      n: "snd (sendTokenIds L P src up (address a) ids [] log) = log @ new"
         "\<forall>q \<in> set new. \<exists>d. q = transaction src (address a) d"
      by blast
    have "snd (tryTransfer L P src up a log) = log
       \<or> snd (tryTransfer L P src up a log) = snd (sendTokenIds L P src up (address a) ids [] log)"
      using LSP8 Some
      by (auto simp: tryTransfer_def split: sum.splits prod.splits)
    then show ?thesis using n by auto
  qed
qed

lemma errorText_orElse:
  "orElse (shortMessage err) (orElse (message err) ''Transfer failed'') = errorText err"
  by (simp add: orElse_def errorText_def split: option.splits list.splits)

lemma processAsset_eq:
  "processAsset L P src up (sts, log) a =
     ((map (\<lambda>s. if TransferStatus.address s = address a
                then applyAttempt (fst (tryTransfer L P src up a log)) s else s) sts,
       snd (tryTransfer L P src up a log)),
      \<not> (fst (tryTransfer L P src up a log) = Threw ThrownNullish
           \<and> address a \<in> TransferStatus.address ` set sts))"
proof (cases "tryTransfer L P src up a log")
  case (Pair r log')
  show ?thesis
  proof (cases r)
    case (Threw t)
    show ?thesis
    proof (cases t)
      case ThrownNullish
      have "list_ex (\<lambda>s. TransferStatus.address s = address a) (setTransferring (address a) sts)
            = (address a \<in> TransferStatus.address ` set sts)"
        by (induction sts) (simp_all add: setTransferring_def)
      then show ?thesis
        using Pair Threw ThrownNullish
        by (simp add: processAsset_def applyAttempt_def setTransferring_def Let_def)
    next
      case (ThrownObject err)
      then show ?thesis
        using Pair Threw
        by (simp add: processAsset_def applyAttempt_def setTransferring_def setError_def
            errorText_orElse)
    qed
  qed (use Pair in \<open>simp_all add: processAsset_def applyAttempt_def setTransferring_def
          setError_def setSuccess_def\<close>)
qed

lemma applyAttempt_pending: "applyAttempt r (pendingStatus a) = finalStatus a r"
  by (simp add: finalStatus_def)

lemma address_pendingStatus: "TransferStatus.address (pendingStatus a) = address a"
  by (simp add: pendingStatus_def)

lemma address_applyAttempt: "TransferStatus.address (applyAttempt r s) = TransferStatus.address s"
  by (simp add: applyAttempt_def split: attempt.splits js_thrown.splits)

lemma address_finalStatus: "TransferStatus.address (finalStatus a r) = address a"
  by (simp add: finalStatus_def address_applyAttempt address_pendingStatus)

lemma length_runLoop: "length (runLoop L P src up sel log) \<le> length sel"
  by (induction sel arbitrary: log) (simp_all add: Let_def)

lemma runLoop_complete:
  "\<not> list_ex (\<lambda>r. fst r = Threw ThrownNullish) (runLoop L P src up sel log)
     \<Longrightarrow> length (runLoop L P src up sel log) = length sel"
  by (induction sel arbitrary: log) (simp_all add: Let_def split: if_splits)

lemma loop_statuses:
  assumes "distinct (map address sel)"
    and "set (map address sel) \<inter> set (map TransferStatus.address pre) = {}"
  shows "transferLoop L P src up sel (pre @ map pendingStatus sel, log) =
           ((pre @ map (\<lambda>(a, r). finalStatus a (fst r)) (zip sel (runLoop L P src up sel log))
               @ map pendingStatus (drop (length (runLoop L P src up sel log)) sel),
             log @ concat (map snd (runLoop L P src up sel log))),
            \<not> list_ex (\<lambda>r. fst r = Threw ThrownNullish) (runLoop L P src up sel log))"
  using assms
proof (induction sel arbitrary: pre log)
  case Nil
  then show ?case by simp
next
  case (Cons a rest)
  let ?r = "tryTransfer L P src up a log"
  obtain new where new: "snd ?r = log @ new"
    using tryTransfer_log [of L P src up a log] by blast
  have pre: "map (\<lambda>s. if TransferStatus.address s = address a
               then applyAttempt (fst ?r) s else s) pre = pre"
  proof (rule map_idI)
    fix s
    assume m: "s \<in> set pre"
    have na: "address a \<notin> TransferStatus.address ` set pre"
      using Cons.prems(2) by simp
    have "TransferStatus.address s \<in> TransferStatus.address ` set pre"
      using m by (rule imageI)
    with na have "TransferStatus.address s \<noteq> address a"
      by (cases "TransferStatus.address s = address a") simp_all
    then show "(if TransferStatus.address s = address a
               then applyAttempt (fst ?r) s else s) = s"
      by simp
  qed
  have rest: "map (\<lambda>s. if TransferStatus.address s = address a
               then applyAttempt (fst ?r) s else s) (map pendingStatus rest) = map pendingStatus rest"
  proof (rule map_idI)
    fix s
    assume "s \<in> set (map pendingStatus rest)"
    then obtain x where x: "x \<in> set rest" "s = pendingStatus x" by auto
    have na: "address a \<notin> address ` set rest"
      using Cons.prems(1) by simp
    have "TransferStatus.address s \<noteq> address a"
      using notin_image_neq [OF x(1) na] by (simp add: x(2) address_pendingStatus)
    then show "(if TransferStatus.address s = address a
               then applyAttempt (fst ?r) s else s) = s"
      by simp
  qed
  have fa: "(if TransferStatus.address (pendingStatus a) = address a
               then applyAttempt (fst ?r) (pendingStatus a) else pendingStatus a) =
            finalStatus a (fst ?r)"
    by (simp add: address_pendingStatus applyAttempt_pending)
  have m: "map (\<lambda>s. if TransferStatus.address s = address a
               then applyAttempt (fst ?r) s else s) (pre @ map pendingStatus (a # rest)) =
        (pre @ [finalStatus a (fst ?r)]) @ map pendingStatus rest"
    by (simp only: map_append list.map pre rest fa append_assoc append_Cons append_Nil)
  have mem: "address a \<in> TransferStatus.address ` set (pre @ map pendingStatus (a # rest))"
    by (simp add: address_pendingStatus)
  have step: "processAsset L P src up (pre @ map pendingStatus (a # rest), log) a =
      (((pre @ [finalStatus a (fst ?r)]) @ map pendingStatus rest, snd ?r),
       fst ?r \<noteq> Threw ThrownNullish)"
    unfolding processAsset_eq m using mem by simp
  show ?case
  proof (cases "fst ?r = Threw ThrownNullish")
    case True
    have rl: "runLoop L P src up (a # rest) log = [(fst ?r, drop (length log) (snd ?r))]"
      using True by (simp add: Let_def)
    show ?thesis
      unfolding transferLoop.simps step rl using True by (simp add: new)
  next
    case False
    have rl: "runLoop L P src up (a # rest) log =
        (fst ?r, drop (length log) (snd ?r)) # runLoop L P src up rest (snd ?r)"
      using False by (simp add: Let_def)
    have d: "distinct (map address rest)" using Cons.prems(1) by simp
    have i: "set (map address rest) \<inter> set (map TransferStatus.address (pre @ [finalStatus a (fst ?r)])) = {}"
    proof -
      have "address a \<notin> address ` set rest"
        using Cons.prems(1) by simp
      moreover have "set (map address rest) \<inter> set (map TransferStatus.address pre) = {}"
        using Cons.prems(2) by auto
      ultimately show ?thesis by (simp add: address_finalStatus)
    qed
    have "transferLoop L P src up (a # rest) (pre @ map pendingStatus (a # rest), log) =
        transferLoop L P src up rest ((pre @ [finalStatus a (fst ?r)]) @ map pendingStatus rest, snd ?r)"
      unfolding transferLoop.simps step using False by simp
    also have "\<dots> =
        (((pre @ [finalStatus a (fst ?r)])
            @ map (\<lambda>(a, r). finalStatus a (fst r)) (zip rest (runLoop L P src up rest (snd ?r)))
            @ map pendingStatus (drop (length (runLoop L P src up rest (snd ?r))) rest),
          snd ?r @ concat (map snd (runLoop L P src up rest (snd ?r)))),
         \<not> list_ex (\<lambda>r. fst r = Threw ThrownNullish) (runLoop L P src up rest (snd ?r)))"
      by (rule Cons.IH [OF d i])
    also have "\<dots> =
        ((pre @ map (\<lambda>(a, r). finalStatus a (fst r)) (zip (a # rest) (runLoop L P src up (a # rest) log))
            @ map pendingStatus (drop (length (runLoop L P src up (a # rest) log)) (a # rest)),
          log @ concat (map snd (runLoop L P src up (a # rest) log))),
         \<not> list_ex (\<lambda>r. fst r = Threw ThrownNullish) (runLoop L P src up (a # rest) log))"
      unfolding rl using False by (simp add: new)
    finally show ?thesis .
  qed
qed

lemma loop_general:
  assumes "address ` set sel \<subseteq> TransferStatus.address ` set sts"
  shows "snd (fst (transferLoop L P src up sel (sts, log))) =
           log @ concat (map snd (runLoop L P src up sel log))
       \<and> map TransferStatus.address (fst (fst (transferLoop L P src up sel (sts, log)))) =
           map TransferStatus.address sts
       \<and> snd (transferLoop L P src up sel (sts, log)) =
           (\<not> list_ex (\<lambda>r. fst r = Threw ThrownNullish) (runLoop L P src up sel log))"
  using assms
proof (induction sel arbitrary: sts log)
  case Nil
  then show ?case by simp
next
  case (Cons a rest)
  let ?r = "tryTransfer L P src up a log"
  let ?sts = "map (\<lambda>s. if TransferStatus.address s = address a
                then applyAttempt (fst ?r) s else s) sts"
  obtain new where new: "snd ?r = log @ new"
    using tryTransfer_log [of L P src up a log] by blast
  have mem: "address a \<in> TransferStatus.address ` set sts"
    using Cons.prems by simp
  have step: "processAsset L P src up (sts, log) a = ((?sts, snd ?r), fst ?r \<noteq> Threw ThrownNullish)"
    unfolding processAsset_eq using mem by simp
  have addr: "map TransferStatus.address ?sts = map TransferStatus.address sts"
    by (simp add: address_applyAttempt comp_def)
  show ?case
  proof (cases "fst ?r = Threw ThrownNullish")
    case True
    have rl: "runLoop L P src up (a # rest) log = [(fst ?r, drop (length log) (snd ?r))]"
      using True by (simp add: Let_def)
    show ?thesis
      unfolding transferLoop.simps step rl using True addr by (simp add: new)
  next
    case False
    have rl: "runLoop L P src up (a # rest) log =
        (fst ?r, drop (length log) (snd ?r)) # runLoop L P src up rest (snd ?r)"
      using False by (simp add: Let_def)
    have "set (map TransferStatus.address ?sts) = set (map TransferStatus.address sts)"
      using addr by (rule arg_cong)
    then have "TransferStatus.address ` set ?sts = TransferStatus.address ` set sts"
      by (simp only: set_map)
    then have sub: "address ` set rest \<subseteq> TransferStatus.address ` set ?sts"
      using Cons.prems by simp
    have eq: "transferLoop L P src up (a # rest) (sts, log) =
        transferLoop L P src up rest (?sts, snd ?r)"
      unfolding transferLoop.simps step using False by simp
    note ih = Cons.IH [OF sub, of "snd ?r"]
    show ?thesis
      unfolding eq rl using ih False addr by (simp add: new)
  qed
qed

lemma handleTransferAll_run:
  assumes "resolvedProvider st = Some P" "sourceAddress st = Some src" "src \<noteq> []"
    and "upAddress st \<noteq> []" "filter selected (assets st) \<noteq> []"
  shows "handleTransferAll L st =
    (st\<lparr>sourceProvider := Some P,
        isTransferring :=
          \<not> snd (transferLoop L P src (upAddress st) (filter selected (assets st))
                   (map pendingStatus (filter selected (assets st)), [])),
        transferStatuses :=
          fst (fst (transferLoop L P src (upAddress st) (filter selected (assets st))
                 (map pendingStatus (filter selected (assets st)), [])))\<rparr>,
     snd (fst (transferLoop L P src (upAddress st) (filter selected (assets st))
                 (map pendingStatus (filter selected (assets st)), []))))"
proof (cases "sourceProvider st")
  case (Some p)
  then have "p = P" using assms(1) by (simp add: resolvedProvider_def)
  then have "st\<lparr>sourceProvider := Some P\<rparr> = st" using Some by simp
  then show ?thesis
    using assms Some \<open>p = P\<close>
    by (simp add: handleTransferAll_def Let_def)
next
  case None
  then obtain c where c: "connector st = Some c" "getProvider c = Inr (Some P)"
    using assms(1) by (auto simp: resolvedProvider_def split: option.splits sum.splits)
  show ?thesis
    using assms None c
    by (simp add: handleTransferAll_def Let_def)
qed

lemma run_requests:
  assumes "resolvedProvider st = Some P" "sourceAddress st = Some src" "src \<noteq> []"
    and "upAddress st \<noteq> []" "filter selected (assets st) = sel" "sel \<noteq> []"
  shows "snd (handleTransferAll L st) = concat (map snd (runLoop L P src (upAddress st) sel []))"
    and "map TransferStatus.address (transferStatuses (fst (handleTransferAll L st))) =
           map address sel"
    and "isTransferring (fst (handleTransferAll L st)) =
           list_ex (\<lambda>r. fst r = Threw ThrownNullish) (runLoop L P src (upAddress st) sel [])"
proof -
  have ne: "filter selected (assets st) \<noteq> []" using assms(5,6) by simp
  have sub: "address ` set sel \<subseteq> TransferStatus.address ` set (map pendingStatus sel)"
    by (auto simp: address_pendingStatus image_iff)
  note g = loop_general [OF sub, of L P src "upAddress st" "[]"]
  note h = handleTransferAll_run [OF assms(1-4) ne, of L, unfolded assms(5)]
  show "snd (handleTransferAll L st) = concat (map snd (runLoop L P src (upAddress st) sel []))"
    unfolding h using g by simp
  show "map TransferStatus.address (transferStatuses (fst (handleTransferAll L st))) =
           map address sel"
    unfolding h using g by (simp add: address_pendingStatus comp_def)
  show "isTransferring (fst (handleTransferAll L st)) =
           list_ex (\<lambda>r. fst r = Threw ThrownNullish) (runLoop L P src (upAddress st) sel [])"
    unfolding h using g by simp
qed

lemma run_statuses:
  assumes "resolvedProvider st = Some P" "sourceAddress st = Some src" "src \<noteq> []"
    and "upAddress st \<noteq> []" "filter selected (assets st) = sel" "sel \<noteq> []"
    and "distinct (map address sel)"
  shows "transferStatuses (fst (handleTransferAll L st)) =
           map (\<lambda>(a, r). finalStatus a (fst r)) (zip sel (runLoop L P src (upAddress st) sel []))
           @ map pendingStatus (drop (length (runLoop L P src (upAddress st) sel [])) sel)"
proof -
  have ne: "filter selected (assets st) \<noteq> []" using assms(5,6) by simp
  note h = handleTransferAll_run [OF assms(1-4) ne, of L, unfolded assms(5)]
  have "transferStatuses (fst (handleTransferAll L st)) =
      fst (fst (transferLoop L P src (upAddress st) sel ([] @ map pendingStatus sel, [])))"
    unfolding h by simp
  also have "\<dots> = [] @ map (\<lambda>(a, r). finalStatus a (fst r))
                          (zip sel (runLoop L P src (upAddress st) sel []))
           @ map pendingStatus (drop (length (runLoop L P src (upAddress st) sel [])) sel)"
    by (subst loop_statuses [OF assms(7)]) simp_all
  finally show ?thesis by simp
qed

lemma runLoop_nth:
  "i < length (runLoop L P src up sel log) \<Longrightarrow>
   runLoop L P src up sel log ! i =
     (fst (tryTransfer L P src up (sel ! i)
             (log @ concat (map snd (take i (runLoop L P src up sel log))))),
      drop (length (log @ concat (map snd (take i (runLoop L P src up sel log)))))
        (snd (tryTransfer L P src up (sel ! i)
                (log @ concat (map snd (take i (runLoop L P src up sel log)))))))"
proof (induction sel arbitrary: i log)
  case Nil
  then show ?case by simp
next
  case (Cons a rest)
  let ?r = "tryTransfer L P src up a log"
  obtain new where new: "snd ?r = log @ new"
    using tryTransfer_log [of L P src up a log] by blast
  show ?case
  proof (cases i)
    case 0
    then show ?thesis by (simp add: Let_def)
  next
    case (Suc j)
    have go: "fst ?r \<noteq> Threw ThrownNullish"
      using Cons.prems Suc by (auto simp: Let_def split: if_splits)
    have rl: "runLoop L P src up (a # rest) log =
        (fst ?r, drop (length log) (snd ?r)) # runLoop L P src up rest (snd ?r)"
      using go by (simp add: Let_def)
    have j: "j < length (runLoop L P src up rest (snd ?r))"
      using Cons.prems Suc unfolding rl by simp
    have lg: "log @ concat (map snd (take i (runLoop L P src up (a # rest) log))) =
        snd ?r @ concat (map snd (take j (runLoop L P src up rest (snd ?r))))"
      unfolding rl Suc by (simp add: new)
    show ?thesis
      unfolding lg unfolding rl Suc using Cons.IH [OF j] by simp
  qed
qed

lemma runLoop_chunk:
  assumes "i < length (runLoop L P src up sel log)"
  shows "snd (tryTransfer L P src up (sel ! i)
                (log @ concat (map snd (take i (runLoop L P src up sel log))))) =
         (log @ concat (map snd (take i (runLoop L P src up sel log))))
           @ snd (runLoop L P src up sel log ! i)"
    and "\<forall>q \<in> set (snd (runLoop L P src up sel log ! i)).
           \<exists>d. q = transaction src (address (sel ! i)) d"
proof -
  let ?lg = "log @ concat (map snd (take i (runLoop L P src up sel log)))"
  from tryTransfer_log [of L P src up "sel ! i" ?lg] obtain new where
    n: "snd (tryTransfer L P src up (sel ! i) ?lg) = ?lg @ new"
       "\<forall>q \<in> set new. \<exists>d. q = transaction src (address (sel ! i)) d"
    by blast
  have c: "snd (runLoop L P src up sel log ! i) = new"
    unfolding runLoop_nth [OF assms] by (simp add: n(1))
  show "snd (tryTransfer L P src up (sel ! i) ?lg) = ?lg @ snd (runLoop L P src up sel log ! i)"
    unfolding c by (rule n(1))
  show "\<forall>q \<in> set (snd (runLoop L P src up sel log ! i)).
           \<exists>d. q = transaction src (address (sel ! i)) d"
    unfolding c by (rule n(2))
qed

lemma filter_chunks:
  assumes "distinct (map address sel)" "length cs \<le> length sel"
    and "\<forall>j < length cs. \<forall>q \<in> set (cs ! j). \<exists>d. q = transaction src (address (sel ! j)) d"
    and "i < length sel"
  shows "filter (sentTo (address (sel ! i))) (concat cs) = (if i < length cs then cs ! i else [])"
  using assms
proof (induction cs arbitrary: sel i)
  case Nil
  then show ?case by simp
next
  case (Cons c cs)
  then obtain a rest where sel: "sel = a # rest" by (cases sel) simp_all
  have c: "\<forall>q \<in> set c. \<exists>d. q = transaction src (address a) d"
    using Cons.prems(3) [rule_format, of 0] sel by simp
  have d: "distinct (map address rest)" using Cons.prems(1) sel by simp
  have l: "length cs \<le> length rest" using Cons.prems(2) sel by simp
  have r: "\<forall>j < length cs. \<forall>q \<in> set (cs ! j). \<exists>d. q = transaction src (address (rest ! j)) d"
  proof (intro allI impI)
    fix j
    assume "j < length cs"
    then have "Suc j < length (c # cs)" by simp
    from Cons.prems(3) [rule_format, OF this]
    show "\<forall>q \<in> set (cs ! j). \<exists>d. q = transaction src (address (rest ! j)) d"
      using sel by simp
  qed
  have na: "address a \<notin> address ` set rest" using Cons.prems(1) sel by simp
  show ?case
  proof (cases i)
    case 0
    have "filter (sentTo (address a)) c = c"
      using c by (auto simp: filter_id_conv sentTo_transaction)
    moreover have "filter (sentTo (address a)) (concat cs) = []"
    proof -
      have "\<forall>q \<in> set (concat cs). \<not> sentTo (address a) q"
      proof
        fix q
        assume "q \<in> set (concat cs)"
        then obtain c' where c': "c' \<in> set cs" "q \<in> set c'" by auto
        from c'(1) obtain j where "j < length cs" "cs ! j = c'"
          by (auto simp: in_set_conv_nth)
        with c'(2) have j: "j < length cs" "q \<in> set (cs ! j)" by simp_all
        with r obtain d where q: "q = transaction src (address (rest ! j)) d" by blast
        have "rest ! j \<in> set rest" using j(1) l by simp
        from notin_image_neq [OF this na] show "\<not> sentTo (address a) q"
          by (simp add: q sentTo_transaction)
      qed
      then show ?thesis by (simp add: filter_empty_conv)
    qed
    ultimately show ?thesis using 0 sel by simp
  next
    case (Suc i')
    then have i': "i' < length rest" using Cons.prems(4) sel by simp
    have "rest ! i' \<in> set rest" using i' by simp
    from notin_image_neq [OF this na] have ne: "address (rest ! i') \<noteq> address a" .
    have "filter (sentTo (address (rest ! i'))) c = []"
    proof -
      have "\<forall>q \<in> set c. \<not> sentTo (address (rest ! i')) q"
      proof
        fix q
        assume "q \<in> set c"
        with c obtain d where "q = transaction src (address a) d" by blast
        then show "\<not> sentTo (address (rest ! i')) q"
          using ne by (simp add: sentTo_transaction)
      qed
      then show ?thesis by (simp add: filter_empty_conv)
    qed
    then show ?thesis
      using Cons.IH [OF d l r i'] Suc sel by simp
  qed
qed

lemma asset_outcome:
  assumes "resolvedProvider st = Some P" "sourceAddress st = Some src" "src \<noteq> []"
    and "upAddress st = up" "up \<noteq> []" "filter selected (assets st) = sel"
    and "distinct (map address sel)" "i < length sel"
  shows "i < length (runLoop L P src up sel []) \<Longrightarrow>
           transferStatuses (fst (handleTransferAll L st)) ! i =
             finalStatus (sel ! i)
               (fst (tryTransfer L P src up (sel ! i)
                       (concat (map snd (take i (runLoop L P src up sel []))))))"
    and "i < length (runLoop L P src up sel []) \<Longrightarrow>
           concat (map snd (take i (runLoop L P src up sel [])))
             @ filter (sentTo (address (sel ! i))) (snd (handleTransferAll L st)) =
           snd (tryTransfer L P src up (sel ! i)
                  (concat (map snd (take i (runLoop L P src up sel [])))))"
    and "\<not> i < length (runLoop L P src up sel []) \<Longrightarrow>
           transferStatuses (fst (handleTransferAll L st)) ! i = pendingStatus (sel ! i)"
    and "\<not> i < length (runLoop L P src up sel []) \<Longrightarrow>
           filter (sentTo (address (sel ! i))) (snd (handleTransferAll L st)) = []"
proof -
  let ?rl = "runLoop L P src up sel []"
  have ne: "sel \<noteq> []" using assms(8) by auto
  have up: "upAddress st \<noteq> []" using assms(4,5) by simp
  note rs = run_statuses [OF assms(1-3) up assms(6) ne assms(7), of L, unfolded assms(4)]
  note rq = run_requests(1) [OF assms(1-3) up assms(6) ne, of L, unfolded assms(4)]
  have len: "length ?rl \<le> length sel" by (rule length_runLoop)
  have ch: "\<forall>j < length (map snd ?rl). \<forall>q \<in> set (map snd ?rl ! j).
      \<exists>d. q = transaction src (address (sel ! j)) d"
  proof (intro allI impI)
    fix j
    assume "j < length (map snd ?rl)"
    then have j: "j < length ?rl" by simp
    from runLoop_chunk(2) [OF j] show "\<forall>q \<in> set (map snd ?rl ! j).
      \<exists>d. q = transaction src (address (sel ! j)) d"
      using j by simp
  qed
  have len': "length (map snd ?rl) \<le> length sel" using len by simp
  note f = filter_chunks [OF assms(7) len' ch assms(8)]
  {
    assume i: "i < length ?rl"
    have "transferStatuses (fst (handleTransferAll L st)) ! i =
        finalStatus (sel ! i) (fst (?rl ! i))"
      unfolding rs using i assms(8) by (simp add: nth_append)
    then show "transferStatuses (fst (handleTransferAll L st)) ! i =
             finalStatus (sel ! i)
               (fst (tryTransfer L P src up (sel ! i) (concat (map snd (take i ?rl)))))"
      using runLoop_nth [OF i] by simp
    have "filter (sentTo (address (sel ! i))) (snd (handleTransferAll L st)) = snd (?rl ! i)"
      unfolding rq f using i by simp
    then show "concat (map snd (take i ?rl))
             @ filter (sentTo (address (sel ! i))) (snd (handleTransferAll L st)) =
           snd (tryTransfer L P src up (sel ! i) (concat (map snd (take i ?rl))))"
      using runLoop_chunk(1) [OF i] by simp
  }
  {
    assume i: "\<not> i < length ?rl"
    show "transferStatuses (fst (handleTransferAll L st)) ! i = pendingStatus (sel ! i)"
      unfolding rs using i assms(8) len by (simp add: nth_append)
    show "filter (sentTo (address (sel ! i))) (snd (handleTransferAll L st)) = []"
      unfolding rq f using i by simp
  }
qed

lemma finalStatus_simps:
  "finalStatus a (Rejected msg) =
     \<lparr>TransferStatus.address = address a, status = Error, txHash = None, error = Some msg\<rparr>"
  "finalStatus a (Succeeded h) =
     \<lparr>TransferStatus.address = address a, status = Success, txHash = Some h, error = None\<rparr>"
  "finalStatus a NoBranch =
     \<lparr>TransferStatus.address = address a, status = Transferring, txHash = None, error = None\<rparr>"
  "finalStatus a (Threw (ThrownObject e)) =
     \<lparr>TransferStatus.address = address a, status = Error, txHash = None,
      error = Some (errorText e)\<rparr>"
  "finalStatus a (Threw ThrownNullish) =
     \<lparr>TransferStatus.address = address a, status = Transferring, txHash = None, error = None\<rparr>"
  by (simp_all add: finalStatus_def applyAttempt_def pendingStatus_def)

lemma finalStatus_Threw:
  "finalStatus a (Threw t) =
     (case t of
        ThrownObject e \<Rightarrow>
          \<lparr>TransferStatus.address = address a, status = Error, txHash = None,
           error = Some (errorText e)\<rparr>
      | ThrownNullish \<Rightarrow>
          \<lparr>TransferStatus.address = address a, status = Transferring, txHash = None,
           error = None\<rparr>)"
  by (cases t) (simp_all add: finalStatus_simps)



lemma tryTransfer_LSP8:
  assumes "type a = LSP8" "tokenIds a = Some ids" "ids \<noteq> []"
  shows "tryTransfer L P src up a log =
           (case fst (sendTokenIds L P src up (address a) ids [] log) of
              Inl e \<Rightarrow> Threw e
            | Inr h \<Rightarrow> Succeeded h,
            snd (sendTokenIds L P src up (address a) ids [] log))"
  using assms by (simp add: tryTransfer_def split: prod.splits sum.splits)



lemma transferHome_runs:
  "resolvedProvider (transferHomeTo up held P) = Some P"
  "sourceAddress (transferHomeTo up held P) = Some (addressOf CHR ''1'')"
  "upAddress (transferHomeTo up held P) = up"
  "assets (transferHomeTo up held P) = held"
  "addressOf CHR ''1'' \<noteq> []"
  "addressOf CHR ''2'' \<noteq> []"
  by (simp_all add: transferHomeTo_def initialHome_def resolvedProvider_def sourceAddress_def
      addressOf_def)


section \<open>Transfer Engine: a rejection with no error object\<close>


text \<open>
  When the same submission is rejected with an error object, the batch goes on: the second
  record becomes an error with the short message of the wallet and the third asset is
  transferred.
\<close>

lemma batch_continues_after_error_object:
  "transferStatuses (fst (handleTransferAll stubLib
      (transferHome [token (addressOf CHR ''a'') ''5'', token (addressOf CHR ''b'') ''7'',
                     token (addressOf CHR ''c'') ''9''] secondRejects))) =
     [\<lparr>TransferStatus.address = addressOf CHR ''a'', status = Success,
       txHash = Some ''0xhash1'', error = None\<rparr>,
      \<lparr>TransferStatus.address = addressOf CHR ''b'', status = Error,
       txHash = None, error = Some ''User rejected the request.''\<rparr>,
      \<lparr>TransferStatus.address = addressOf CHR ''c'', status = Success,
       txHash = Some ''0xhash3'', error = None\<rparr>]
   \<and> \<not> isTransferring (fst (handleTransferAll stubLib
      (transferHome [token (addressOf CHR ''a'') ''5'', token (addressOf CHR ''b'') ''7'',
                     token (addressOf CHR ''c'') ''9''] secondRejects)))"
  by code_simp

text \<open>
  An error that reaches the \<open>catch\<close> was thrown by \<open>BigInt\<close>, by
  \<open>encodeFunctionData\<close> or by the wallet. When none of them ever throws
  \<open>undefined\<close> or \<open>null\<close>, every run over assets with pairwise different
  addresses ends, every selected asset is attempted, and the record of each asset holds
  the outcome of its own attempt, whatever happened to the others.
\<close>

lemma tryTransfer_Threw_origin:
  assumes "fst (tryTransfer L P src up a log) = Threw t"
  shows "(\<exists>s. BigInt L s = Inl t) \<or> (\<exists>abi f args. encodeFunctionData L abi f args = Inl t)
       \<or> (\<exists>lg. P lg = Inl t)"
proof (cases "type a")
  case LSP7
  then show ?thesis
    using assms
    by (auto simp: tryTransfer_def sendViaProvider_def Let_def split: sum.splits if_splits)
next
  case LSP8
  show ?thesis
  proof (cases "tokenIds a")
    case None
    then show ?thesis using assms LSP8 by (simp add: tryTransfer_def)
  next
    case (Some ids)
    show ?thesis
    proof (cases "ids = []")
      case True
      then show ?thesis using assms LSP8 Some by (simp add: tryTransfer_def)
    next
      case False
      let ?s = "sendTokenIds L P src up (address a) ids [] log"
      have "fst ?s = Inl t"
        using assms unfolding tryTransfer_LSP8 [OF LSP8 Some False]
        by (cases "fst ?s") simp_all
      with sendTokenIds_sent [of L P src up "address a" ids "[]" log]
      obtain new where
        "(length new < length ids \<and> lsp8Calldata L src up (ids ! length new) = Inl t)
           \<or> (new \<noteq> [] \<and> P (log @ new) = Inl t)"
        by auto
      then show ?thesis unfolding lsp8Calldata_def by blast
    qed
  qed
qed

lemma batch_isolation_for_error_objects:
  assumes "resolvedProvider st = Some P" "sourceAddress st = Some src" "src \<noteq> []"
    and "upAddress st = up" "up \<noteq> []" "filter selected (assets st) = sel" "sel \<noteq> []"
    and "distinct (map address sel)"
    and "\<forall>lg. P lg \<noteq> Inl ThrownNullish" "\<forall>s. BigInt L s \<noteq> Inl ThrownNullish"
    and "\<forall>abi f args. encodeFunctionData L abi f args \<noteq> Inl ThrownNullish"
  shows "\<not> isTransferring (fst (handleTransferAll L st))"
    and "length (runLoop L P src up sel []) = length sel"
    and "i < length sel \<Longrightarrow>
           transferStatuses (fst (handleTransferAll L st)) ! i =
             (case fst (tryTransfer L P src up (sel ! i)
                          (concat (map snd (take i (runLoop L P src up sel []))))) of
                Rejected msg \<Rightarrow>
                  \<lparr>TransferStatus.address = address (sel ! i), status = Error, txHash = None,
                   error = Some msg\<rparr>
              | Succeeded h \<Rightarrow>
                  \<lparr>TransferStatus.address = address (sel ! i), status = Success,
                   txHash = Some h, error = None\<rparr>
              | NoBranch \<Rightarrow>
                  \<lparr>TransferStatus.address = address (sel ! i), status = Transferring,
                   txHash = None, error = None\<rparr>
              | Threw ThrownNullish \<Rightarrow>
                  \<lparr>TransferStatus.address = address (sel ! i), status = Transferring,
                   txHash = None, error = None\<rparr>
              | Threw (ThrownObject e) \<Rightarrow>
                  \<lparr>TransferStatus.address = address (sel ! i), status = Error, txHash = None,
                   error = Some (errorText e)\<rparr>)"
proof -
  let ?rl = "runLoop L P src up sel []"
  have up: "upAddress st \<noteq> []" using assms(4,5) by simp
  have no: "fst (tryTransfer L P src up a log) \<noteq> Threw ThrownNullish" for a log
    using tryTransfer_Threw_origin [of L P src up a log ThrownNullish] assms(9-11) by blast
  have all: "\<not> list_ex (\<lambda>r. fst r = Threw ThrownNullish) (runLoop L P src up xs log)" for xs log
    by (induction xs arbitrary: log) (simp_all add: Let_def no)
  show "\<not> isTransferring (fst (handleTransferAll L st))"
    unfolding run_requests(3) [OF assms(1-3) up assms(6,7), of L] assms(4) by (rule all)
  show len: "length ?rl = length sel"
    by (rule runLoop_complete [OF all])
  show "transferStatuses (fst (handleTransferAll L st)) ! i =
             (case fst (tryTransfer L P src up (sel ! i) (concat (map snd (take i ?rl)))) of
                Rejected msg \<Rightarrow>
                  \<lparr>TransferStatus.address = address (sel ! i), status = Error, txHash = None,
                   error = Some msg\<rparr>
              | Succeeded h \<Rightarrow>
                  \<lparr>TransferStatus.address = address (sel ! i), status = Success,
                   txHash = Some h, error = None\<rparr>
              | NoBranch \<Rightarrow>
                  \<lparr>TransferStatus.address = address (sel ! i), status = Transferring,
                   txHash = None, error = None\<rparr>
              | Threw ThrownNullish \<Rightarrow>
                  \<lparr>TransferStatus.address = address (sel ! i), status = Transferring,
                   txHash = None, error = None\<rparr>
              | Threw (ThrownObject e) \<Rightarrow>
                  \<lparr>TransferStatus.address = address (sel ! i), status = Error, txHash = None,
                   error = Some (errorText e)\<rparr>)"
    if i: "i < length sel"
  proof -
    have r: "i < length ?rl" using i len by simp
    show ?thesis
      unfolding asset_outcome(1) [OF assms(1-6,8) i r]
      by (simp add: finalStatus_simps split: attempt.splits js_thrown.splits)
  qed
qed


section \<open>Transfer Engine: an LSP8 asset without token ids\<close>




section \<open>Transfer Engine: validation of an LSP7 amount\<close>

text \<open>
  C2, as stated, fails: the destination is free text, and for a destination that is not an
  address \<open>encodeFunctionData\<close> throws inside the \<open>try\<close> block. The amount 5 is
  parsed, is positive and does not exceed the balance 100, yet no transaction is submitted
  and the status becomes error.
\<close>

theorem lsp7_malformed_destination_counterexample:
  "parseUnits stubLib (transferAmount (token (addressOf CHR ''a'') ''5''))
     (decimals (token (addressOf CHR ''a'') ''5'')) = Inr 5
   \<and> BigInt stubLib (balance (token (addressOf CHR ''a'') ''5'')) = Inr 100
   \<and> snd (handleTransferAll stubLib
        (transferHomeTo ''my-profile'' [token (addressOf CHR ''a'') ''5''] hashingWallet)) = []
   \<and> map status (transferStatuses (fst (handleTransferAll stubLib
        (transferHomeTo ''my-profile'' [token (addressOf CHR ''a'') ''5''] hashingWallet)))) =
       [Error]"
  by code_simp

text \<open>
  C2, amended. Take a run over assets with pairwise different addresses and an LSP7 asset
  that the loop reaches; \<open>sent\<close> is the list of the requests of the run that are
  transactions to the address of the asset, \<open>entry\<close> its final status record and
  \<open>before\<close> the requests sent for the assets before it. A parse failure gives no
  transaction and the error \<open>Invalid amount\<close>; a parsed amount that is not positive
  gives no transaction and \<open>Amount must be greater than 0\<close>; an amount above the held
  balance gives no transaction and \<open>Amount exceeds balance\<close>. Otherwise, when
  \<open>BigInt\<close> of the balance or the construction of the calldata throws, no transaction
  is submitted and the error goes to the \<open>catch\<close> of the asset: an error object gives
  the status error with its short message, else its message, else \<open>Transfer failed\<close>.
  When the calldata is built, exactly one transaction is submitted, from the source to the
  address of the asset and carrying that calldata, and the record holds the hash the wallet
  returns or the error it rejects with.
\<close>

theorem lsp7_validation:
  assumes "resolvedProvider st = Some P" "sourceAddress st = Some src" "src \<noteq> []"
    and "upAddress st = up" "up \<noteq> []" "filter selected (assets st) = sel"
    and "distinct (map address sel)"
    and "i < length (runLoop L P src up sel [])" "type (sel ! i) = LSP7"
  shows
   "let a = sel ! i;
        before = concat (map snd (take i (runLoop L P src up sel [])));
        sent = filter (sentTo (address a)) (snd (handleTransferAll L st));
        entry = transferStatuses (fst (handleTransferAll L st)) ! i;
        failed = (\<lambda>msg. \<lparr>TransferStatus.address = address a, status = Error, txHash = None,
                          error = Some msg\<rparr>);
        caught = (\<lambda>thrown. case thrown of
                              ThrownObject e \<Rightarrow> failed (errorText e)
                            | ThrownNullish \<Rightarrow>
                                \<lparr>TransferStatus.address = address a, status = Transferring,
                                 txHash = None, error = None\<rparr>)
    in (isl (parseUnits L (transferAmount a) (decimals a)) \<longrightarrow>
          sent = [] \<and> entry = failed ''Invalid amount'')
     \<and> (\<forall>rawAmount.
          parseUnits L (transferAmount a) (decimals a) = Inr rawAmount \<and> rawAmount \<le> 0 \<longrightarrow>
          sent = [] \<and> entry = failed ''Amount must be greater than 0'')
     \<and> (\<forall>rawAmount held.
          parseUnits L (transferAmount a) (decimals a) = Inr rawAmount \<and> 0 < rawAmount
          \<and> BigInt L (balance a) = Inr held \<and> held < rawAmount \<longrightarrow>
          sent = [] \<and> entry = failed ''Amount exceeds balance'')
     \<and> (\<forall>rawAmount thrown.
          parseUnits L (transferAmount a) (decimals a) = Inr rawAmount \<and> 0 < rawAmount
          \<and> BigInt L (balance a) = Inl thrown \<longrightarrow>
          sent = [] \<and> entry = caught thrown)
     \<and> (\<forall>rawAmount held thrown.
          parseUnits L (transferAmount a) (decimals a) = Inr rawAmount \<and> 0 < rawAmount
          \<and> BigInt L (balance a) = Inr held \<and> rawAmount \<le> held
          \<and> encodeFunctionData L LSP7_TRANSFER_ABI ''transfer''
               [Str src, Str up, BigIntValue rawAmount, BoolValue True, Str ''0x''] = Inl thrown \<longrightarrow>
          sent = [] \<and> entry = caught thrown)
     \<and> (\<forall>rawAmount held calldata.
          parseUnits L (transferAmount a) (decimals a) = Inr rawAmount \<and> 0 < rawAmount
          \<and> BigInt L (balance a) = Inr held \<and> rawAmount \<le> held
          \<and> encodeFunctionData L LSP7_TRANSFER_ABI ''transfer''
               [Str src, Str up, BigIntValue rawAmount, BoolValue True, Str ''0x''] = Inr calldata \<longrightarrow>
          sent = [Request ''eth_sendTransaction''
                    (Some [TransactionParams src (address a) calldata])]
          \<and> entry =
              (case P (before @ [Request ''eth_sendTransaction''
                                   (Some [TransactionParams src (address a) calldata])]) of
                 Inr h \<Rightarrow> \<lparr>TransferStatus.address = address a, status = Success,
                            txHash = Some h, error = None\<rparr>
               | Inl thrown \<Rightarrow> caught thrown))"
proof -
  let ?a = "sel ! i"
  let ?before = "concat (map snd (take i (runLoop L P src up sel [])))"
  let ?sent = "filter (sentTo (address ?a)) (snd (handleTransferAll L st))"
  let ?entry = "transferStatuses (fst (handleTransferAll L st)) ! i"
  have il: "i < length sel"
    using assms(8) length_runLoop [of L P src up sel "[]"] by simp
  note o1 = asset_outcome(1) [OF assms(1-7) il assms(8)]
  note o2 = asset_outcome(2) [OF assms(1-7) il assms(8)]
  have out: "?sent = new \<and> ?entry = finalStatus ?a r"
    if "tryTransfer L P src up ?a ?before = (r, ?before @ new)" for r new
    using o1 o2 unfolding that by simp
  have c1: "?sent = [] \<and> ?entry = finalStatus ?a (Rejected ''Invalid amount'')"
    if "isl (parseUnits L (transferAmount ?a) (decimals ?a))"
  proof (rule out)
    show "tryTransfer L P src up ?a ?before = (Rejected ''Invalid amount'', ?before @ [])"
      using that assms(9)
      by (cases "parseUnits L (transferAmount ?a) (decimals ?a)") (simp_all add: tryTransfer_def)
  qed
  have c2: "?sent = [] \<and> ?entry = finalStatus ?a (Rejected ''Amount must be greater than 0'')"
    if "parseUnits L (transferAmount ?a) (decimals ?a) = Inr rawAmount \<and> rawAmount \<le> 0"
    for rawAmount
  proof (rule out)
    show "tryTransfer L P src up ?a ?before =
        (Rejected ''Amount must be greater than 0'', ?before @ [])"
      using that assms(9) by (simp add: tryTransfer_def)
  qed
  have c3: "?sent = [] \<and> ?entry = finalStatus ?a (Rejected ''Amount exceeds balance'')"
    if "parseUnits L (transferAmount ?a) (decimals ?a) = Inr rawAmount \<and> 0 < rawAmount
          \<and> BigInt L (balance ?a) = Inr held \<and> held < rawAmount"
    for rawAmount held
  proof (rule out)
    show "tryTransfer L P src up ?a ?before = (Rejected ''Amount exceeds balance'', ?before @ [])"
      using that assms(9) by (simp add: tryTransfer_def)
  qed
  have c4: "?sent = [] \<and> ?entry = finalStatus ?a (Threw thrown)"
    if "parseUnits L (transferAmount ?a) (decimals ?a) = Inr rawAmount \<and> 0 < rawAmount
          \<and> BigInt L (balance ?a) = Inl thrown"
    for rawAmount thrown
  proof (rule out)
    show "tryTransfer L P src up ?a ?before = (Threw thrown, ?before @ [])"
      using that assms(9) by (simp add: tryTransfer_def)
  qed
  have c5: "?sent = [] \<and> ?entry = finalStatus ?a (Threw thrown)"
    if "parseUnits L (transferAmount ?a) (decimals ?a) = Inr rawAmount \<and> 0 < rawAmount
          \<and> BigInt L (balance ?a) = Inr held \<and> rawAmount \<le> held
          \<and> encodeFunctionData L LSP7_TRANSFER_ABI ''transfer''
               [Str src, Str up, BigIntValue rawAmount, BoolValue True, Str ''0x''] = Inl thrown"
    for rawAmount held thrown
  proof (rule out)
    show "tryTransfer L P src up ?a ?before = (Threw thrown, ?before @ [])"
      using that assms(9) by (simp add: tryTransfer_def)
  qed
  have c6: "?sent = [Request ''eth_sendTransaction''
                       (Some [TransactionParams src (address ?a) calldata])]
      \<and> ?entry = finalStatus ?a
          (case P (?before @ [Request ''eth_sendTransaction''
                                (Some [TransactionParams src (address ?a) calldata])]) of
             Inr h \<Rightarrow> Succeeded h | Inl thrown \<Rightarrow> Threw thrown)"
    if "parseUnits L (transferAmount ?a) (decimals ?a) = Inr rawAmount \<and> 0 < rawAmount
          \<and> BigInt L (balance ?a) = Inr held \<and> rawAmount \<le> held
          \<and> encodeFunctionData L LSP7_TRANSFER_ABI ''transfer''
               [Str src, Str up, BigIntValue rawAmount, BoolValue True, Str ''0x''] = Inr calldata"
    for rawAmount held calldata
  proof (rule out)
    show "tryTransfer L P src up ?a ?before =
        ((case P (?before @ [Request ''eth_sendTransaction''
                                (Some [TransactionParams src (address ?a) calldata])]) of
             Inr h \<Rightarrow> Succeeded h | Inl thrown \<Rightarrow> Threw thrown),
         ?before @ [Request ''eth_sendTransaction''
                       (Some [TransactionParams src (address ?a) calldata])])"
      using that assms(9)
      by (simp add: tryTransfer_def sendViaProvider_def Let_def split: sum.splits)
  qed
  have c6': "finalStatus ?a (case x of Inr h \<Rightarrow> Succeeded h | Inl thrown \<Rightarrow> Threw thrown) =
      (case x of
         Inr h \<Rightarrow> \<lparr>TransferStatus.address = address ?a, status = Success,
                    txHash = Some h, error = None\<rparr>
       | Inl thrown \<Rightarrow> finalStatus ?a (Threw thrown))" for x
    by (cases x) (simp_all add: finalStatus_simps)
  note k1 = c1 [unfolded finalStatus_simps]
  note k2 = c2 [unfolded finalStatus_simps]
  note k3 = c3 [unfolded finalStatus_simps]
  note k4 = c4 [unfolded finalStatus_Threw]
  note k5 = c5 [unfolded finalStatus_Threw]
  note k6 = c6 [unfolded c6' finalStatus_Threw]
  show ?thesis
    unfolding Let_def
    apply (intro conjI)
    subgoal using k1 by blast
    subgoal using k2 by blast
    subgoal using k3 by blast
    subgoal using k4 by blast
    subgoal using k5 by blast
    subgoal using k6 by blast
    done
qed

theorem lsp7_validation_witness:
  "transferStatuses (fst (handleTransferAll stubLib
      (transferHome [token (addressOf CHR ''a'') ''abc'', token (addressOf CHR ''b'') ''0'',
                     token (addressOf CHR ''c'') ''101'', token (addressOf CHR ''d'') ''100'']
         hashingWallet))) ! 0 =
     \<lparr>TransferStatus.address = addressOf CHR ''a'', status = Error, txHash = None,
      error = Some ''Invalid amount''\<rparr>
   \<and> transferStatuses (fst (handleTransferAll stubLib
      (transferHome [token (addressOf CHR ''a'') ''abc'', token (addressOf CHR ''b'') ''0'',
                     token (addressOf CHR ''c'') ''101'', token (addressOf CHR ''d'') ''100'']
         hashingWallet))) ! 1 =
     \<lparr>TransferStatus.address = addressOf CHR ''b'', status = Error, txHash = None,
      error = Some ''Amount must be greater than 0''\<rparr>
   \<and> transferStatuses (fst (handleTransferAll stubLib
      (transferHome [token (addressOf CHR ''a'') ''abc'', token (addressOf CHR ''b'') ''0'',
                     token (addressOf CHR ''c'') ''101'', token (addressOf CHR ''d'') ''100'']
         hashingWallet))) ! 2 =
     \<lparr>TransferStatus.address = addressOf CHR ''c'', status = Error, txHash = None,
      error = Some ''Amount exceeds balance''\<rparr>
   \<and> transferStatuses (fst (handleTransferAll stubLib
      (transferHome [token (addressOf CHR ''a'') ''abc'', token (addressOf CHR ''b'') ''0'',
                     token (addressOf CHR ''c'') ''101'', token (addressOf CHR ''d'') ''100'']
         hashingWallet))) ! 3 =
     \<lparr>TransferStatus.address = addressOf CHR ''d'', status = Success,
      txHash = Some ''0xhash1'', error = None\<rparr>
   \<and> filter (sentTo (addressOf CHR ''d'')) (snd (handleTransferAll stubLib
      (transferHome [token (addressOf CHR ''a'') ''abc'', token (addressOf CHR ''b'') ''0'',
                     token (addressOf CHR ''c'') ''101'', token (addressOf CHR ''d'') ''100'']
         hashingWallet))) =
     [Request ''eth_sendTransaction''
        (Some [TransactionParams (addressOf CHR ''1'') (addressOf CHR ''d'')
                 (''transfer,'' @ addressOf CHR ''1'' @ '','' @ addressOf CHR ''2''
                    @ '',100,true,0x'')])]
   \<and> filter (sentTo (addressOf CHR ''a'')) (snd (handleTransferAll stubLib
        (transferHomeTo ''my-profile'' [token (addressOf CHR ''a'') ''5''] rejectingWallet))) = []
   \<and> transferStatuses (fst (handleTransferAll stubLib
        (transferHomeTo ''my-profile'' [token (addressOf CHR ''a'') ''5''] rejectingWallet))) ! 0 =
     \<lparr>TransferStatus.address = addressOf CHR ''a'', status = Error, txHash = None,
      error = Some ''Address is invalid.''\<rparr>
   \<and> transferStatuses (fst (handleTransferAll stubLib
        (transferHome [token (addressOf CHR ''a'') ''5''] rejectingWallet))) ! 0 =
     \<lparr>TransferStatus.address = addressOf CHR ''a'', status = Error, txHash = None,
      error = Some ''User rejected the request.''\<rparr>"
proof -
  let ?src = "addressOf CHR ''1''"
  let ?up = "addressOf CHR ''2''"
  let ?sel = "[token (addressOf CHR ''a'') ''abc'', token (addressOf CHR ''b'') ''0'',
               token (addressOf CHR ''c'') ''101'', token (addressOf CHR ''d'') ''100'']"
  let ?st = "transferHomeTo ?up ?sel hashingWallet"
  let ?one = "[token (addressOf CHR ''a'') ''5'']"
  let ?st2 = "transferHomeTo ''my-profile'' ?one rejectingWallet"
  let ?st3 = "transferHomeTo ?up ?one rejectingWallet"
  have f: "filter selected (assets ?st) = ?sel"
    by (simp add: transferHome_runs token_def)
  have d: "distinct (map address ?sel)"
    by code_simp
  have len: "length (runLoop stubLib hashingWallet ?src ?up ?sel []) = 4"
    by code_simp
  have r0: "0 < length (runLoop stubLib hashingWallet ?src ?up ?sel [])"
    and r1: "1 < length (runLoop stubLib hashingWallet ?src ?up ?sel [])"
    and r2: "2 < length (runLoop stubLib hashingWallet ?src ?up ?sel [])"
    and r3: "3 < length (runLoop stubLib hashingWallet ?src ?up ?sel [])"
    unfolding len by simp_all
  have ty: "type (?sel ! 0) = LSP7" "type (?sel ! 1) = LSP7" "type (?sel ! 2) = LSP7"
    "type (?sel ! 3) = LSP7"
    by (simp_all add: token_def)
  note T = lsp7_validation [of ?st hashingWallet ?src ?up ?sel _ stubLib,
      OF transferHome_runs(1) transferHome_runs(2) transferHome_runs(5) transferHome_runs(3)
        transferHome_runs(6) f d, unfolded Let_def]
  have p0: "isl (parseUnits stubLib (transferAmount (?sel ! 0)) (decimals (?sel ! 0)))"
    by code_simp
  have p1: "parseUnits stubLib (transferAmount (?sel ! 1)) (decimals (?sel ! 1)) = Inr 0
      \<and> (0::int) \<le> 0"
    by code_simp
  have p2: "parseUnits stubLib (transferAmount (?sel ! 2)) (decimals (?sel ! 2)) = Inr 101
      \<and> (0::int) < 101 \<and> BigInt stubLib (balance (?sel ! 2)) = Inr 100 \<and> (100::int) < 101"
    by code_simp
  have p3: "parseUnits stubLib (transferAmount (?sel ! 3)) (decimals (?sel ! 3)) = Inr 100
      \<and> (0::int) < 100 \<and> BigInt stubLib (balance (?sel ! 3)) = Inr 100 \<and> (100::int) \<le> 100
      \<and> encodeFunctionData stubLib LSP7_TRANSFER_ABI ''transfer''
            [Str ?src, Str ?up, BigIntValue 100, BoolValue True, Str ''0x''] =
          Inr (''transfer,'' @ ?src @ '','' @ ?up @ '',100,true,0x'')"
    by code_simp
  have a: "address (?sel ! 0) = addressOf CHR ''a''" "address (?sel ! 1) = addressOf CHR ''b''"
    "address (?sel ! 2) = addressOf CHR ''c''" "address (?sel ! 3) = addressOf CHR ''d''"
    by (simp_all add: token_def)
  have hv: "hashingWallet
      (concat (map snd (take 3 (runLoop stubLib hashingWallet ?src ?up ?sel []))) @
       [Request ''eth_sendTransaction''
          (Some [TransactionParams ?src (addressOf CHR ''d'')
                   (''transfer,'' @ ?src @ '','' @ ?up @ '',100,true,0x'')])]) = Inr ''0xhash1''"
    by code_simp
  note A = T [OF r0 ty(1), THEN conjunct1, THEN mp, OF p0, unfolded a]
  note B = T [OF r1 ty(2), THEN conjunct2, THEN conjunct1, THEN spec, THEN mp, OF p1, unfolded a]
  note C = T [OF r2 ty(3), THEN conjunct2, THEN conjunct2, THEN conjunct1, THEN spec, THEN spec,
      THEN mp, OF p2, unfolded a]
  note D = T [OF r3 ty(4), THEN conjunct2, THEN conjunct2, THEN conjunct2, THEN conjunct2,
      THEN conjunct2, THEN spec, THEN spec, THEN spec, THEN mp, OF p3, unfolded a hv]
  have f2: "filter selected (assets ?st2) = ?one" "filter selected (assets ?st3) = ?one"
    by (simp_all add: transferHome_runs token_def)
  have d2: "distinct (map address ?one)"
    by simp
  have n2: "''my-profile'' \<noteq> []"
    by simp
  have q0: "0 < length (runLoop stubLib rejectingWallet ?src ''my-profile'' ?one [])"
    "0 < length (runLoop stubLib rejectingWallet ?src ?up ?one [])"
    by (simp_all add: Let_def)
  have ty2: "type (?one ! 0) = LSP7"
    by (simp add: token_def)
  have a2: "address (?one ! 0) = addressOf CHR ''a''"
    by (simp add: token_def)
  have p5: "parseUnits stubLib (transferAmount (?one ! 0)) (decimals (?one ! 0)) = Inr 5
      \<and> (0::int) < 5 \<and> BigInt stubLib (balance (?one ! 0)) = Inr 100 \<and> (5::int) \<le> 100
      \<and> encodeFunctionData stubLib LSP7_TRANSFER_ABI ''transfer''
            [Str ?src, Str ''my-profile'', BigIntValue 5, BoolValue True, Str ''0x''] =
          Inl (abiError ''Address is invalid.'')"
    by code_simp
  have p6: "parseUnits stubLib (transferAmount (?one ! 0)) (decimals (?one ! 0)) = Inr 5
      \<and> (0::int) < 5 \<and> BigInt stubLib (balance (?one ! 0)) = Inr 100 \<and> (5::int) \<le> 100
      \<and> encodeFunctionData stubLib LSP7_TRANSFER_ABI ''transfer''
            [Str ?src, Str ?up, BigIntValue 5, BoolValue True, Str ''0x''] =
          Inr (''transfer,'' @ ?src @ '','' @ ?up @ '',5,true,0x'')"
    by code_simp
  have rj: "rejectingWallet
      (concat (map snd (take 0 (runLoop stubLib rejectingWallet ?src ?up ?one []))) @
       [Request ''eth_sendTransaction''
          (Some [TransactionParams ?src (addressOf CHR ''a'')
                   (''transfer,'' @ ?src @ '','' @ ?up @ '',5,true,0x'')])]) =
      Inl (ThrownObject userRejected)"
    by (simp add: rejectingWallet_def)
  have t1: "errorText userRejected = ''User rejected the request.''"
    by code_simp
  have t2: "abiError ''Address is invalid.'' =
      ThrownObject \<lparr>shortMessage = Some ''Address is invalid.'',
                    message = Some ''Address is invalid. Version: viem'', code = None\<rparr>"
    by code_simp
  have t3: "errorText \<lparr>shortMessage = Some ''Address is invalid.'',
                    message = Some ''Address is invalid. Version: viem'', code = None\<rparr> =
      ''Address is invalid.''"
    by code_simp
  note E = lsp7_validation [of ?st2 rejectingWallet ?src "''my-profile''" ?one 0 stubLib,
      OF transferHome_runs(1) transferHome_runs(2) transferHome_runs(5) transferHome_runs(3)
        n2 f2(1) d2 q0(1) ty2, unfolded Let_def, THEN conjunct2, THEN conjunct2, THEN conjunct2,
      THEN conjunct2, THEN conjunct1, THEN spec, THEN spec, THEN spec, THEN mp, OF p5,
      unfolded a2 t2 js_thrown.case t3]
  note F = lsp7_validation [of ?st3 rejectingWallet ?src ?up ?one 0 stubLib,
      OF transferHome_runs(1) transferHome_runs(2) transferHome_runs(5) transferHome_runs(3)
        transferHome_runs(6) f2(2) d2 q0(2) ty2, unfolded Let_def, THEN conjunct2, THEN conjunct2,
      THEN conjunct2, THEN conjunct2, THEN conjunct2, THEN spec, THEN spec, THEN spec,
      THEN mp, OF p6, unfolded a2 rj sum.case js_thrown.case t1]
  show ?thesis
    unfolding transferHome_def
    using A [THEN conjunct2] B [THEN conjunct2] C [THEN conjunct2] D [THEN conjunct2]
      D [THEN conjunct1] E [THEN conjunct1] E [THEN conjunct2] F [THEN conjunct2]
    by (simp only: sum.case simp_thms)
qed


section \<open>Transfer Engine: one transaction for each token id\<close>




end
